theory Spec2Isabelle
  imports Complex_Main
begin

section \<open>Numbers, vectors and targets\<close>

text \<open>
  JavaScript numbers are idealised: item counts and loop indices are integers
  (\<open>count\<close> is an array length in every caller), coordinates are reals. Rounding of
  doubles is not modelled.
\<close>

datatype error_kind = InvalidArgument | MismatchedLength | EmptyInput

text \<open>
  The completion of a call: a normal return with its value, or a thrown error. The error
  kinds are those the interface description names; the sources contain no \<open>throw\<close>.
\<close>

datatype 'a completion = Returns 'a | Throws error_kind

text \<open>The remainder operator \<open>a % b\<close>: the sign of the dividend, truncated quotient.\<close>

definition js_rem :: "int \<Rightarrow> int \<Rightarrow> int" where
  "js_rem a b = sgn a * (\<bar>a\<bar> mod \<bar>b\<bar>)"

text \<open>\<open>Math.floor(a / b)\<close> and \<open>Math.ceil(a / b)\<close> on integer-valued numbers.\<close>

definition floor_div :: "int \<Rightarrow> int \<Rightarrow> int" where
  "floor_div a b = \<lfloor>real_of_int a / real_of_int b\<rfloor>"

definition ceil_div :: "int \<Rightarrow> int \<Rightarrow> int" where
  "ceil_div a b = \<lceil>real_of_int a / real_of_int b\<rceil>"

datatype vec3 = Vector3 (vx: real) (vy: real) (vz: real)

text \<open>
  Modelled from the spec: the vector arithmetic of three.js's \<open>Vector3\<close> that the layouts
  call (the library is imported by the sources, not part of them); each operation is the
  componentwise one of its name.
\<close>

definition multiplyScalar :: "vec3 \<Rightarrow> real \<Rightarrow> vec3" where
  "multiplyScalar v s = Vector3 (vx v * s) (vy v * s) (vz v * s)"

definition divideScalar :: "vec3 \<Rightarrow> real \<Rightarrow> vec3" where
  "divideScalar v s = multiplyScalar v (1 / s)"

definition addVector :: "vec3 \<Rightarrow> vec3 \<Rightarrow> vec3" where
  "addVector v w = Vector3 (vx v + vx w) (vy v + vy w) (vz v + vz w)"

definition subVectors :: "vec3 \<Rightarrow> vec3 \<Rightarrow> vec3" where
  "subVectors a b = Vector3 (vx a - vx b) (vy a - vy b) (vz a - vz b)"

definition addScaledVector :: "vec3 \<Rightarrow> vec3 \<Rightarrow> real \<Rightarrow> vec3" where
  "addScaledVector v w s = Vector3 (vx v + vx w * s) (vy v + vy w * s) (vz v + vz w * s)"

definition crossVectors :: "vec3 \<Rightarrow> vec3 \<Rightarrow> vec3" where
  "crossVectors a b =
     Vector3 (vy a * vz b - vz a * vy b) (vz a * vx b - vx a * vz b) (vx a * vy b - vy a * vx b)"

definition vlength :: "vec3 \<Rightarrow> real" where
  "vlength v = sqrt (vx v * vx v + vy v * vy v + vz v * vz v)"

text \<open>\<open>normalize\<close> divides by \<open>length() || 1\<close>.\<close>

definition normalize :: "vec3 \<Rightarrow> vec3" where
  "normalize v = divideScalar v (if vlength v = 0 then 1 else vlength v)"

definition lerp :: "vec3 \<Rightarrow> vec3 \<Rightarrow> real \<Rightarrow> vec3" where
  "lerp v w alpha =
     Vector3 (vx v + (vx w - vx v) * alpha) (vy v + (vy w - vy v) * alpha)
       (vz v + (vz w - vz v) * alpha)"

text \<open>
  An \<open>Object3D\<close> as the layouts and the transition use it: a position and the Euler
  angles of its rotation.
\<close>

record object3d =
  position :: vec3
  rotation :: vec3

text \<open>
  \<open>Object3D.lookAt\<close> is three.js code: the generators take it as a parameter, a function
  from the object's position and the point looked at to the resulting rotation. A fresh
  \<open>Object3D\<close> has position and rotation \<open>(0, 0, 0)\<close>.
\<close>

type_synonym look_at = "vec3 \<Rightarrow> vec3 \<Rightarrow> vec3"

section \<open>Layout constants\<close>

definition TABLE_X_SPACING :: real where "TABLE_X_SPACING = 250"
definition TABLE_Y_SPACING :: real where "TABLE_Y_SPACING = 320"
definition TABLE_COLS :: int where "TABLE_COLS = 20"
definition TABLE_ROWS :: int where "TABLE_ROWS = 10"

definition SPHERE_RADIUS :: real where "SPHERE_RADIUS = 800"

definition HELIX_RADIUS :: real where "HELIX_RADIUS = 500"
definition HELIX_TURN_ANGLE :: real where "HELIX_TURN_ANGLE = 0.3"
definition HELIX_VERTICAL_STEP :: real where "HELIX_VERTICAL_STEP = 40"

definition GRID_X_SPACING :: real where "GRID_X_SPACING = 250"
definition GRID_Y_SPACING :: real where "GRID_Y_SPACING = 320"
definition GRID_Z_SPACING :: real where "GRID_Z_SPACING = 250"
definition GRID_X_COUNT :: int where "GRID_X_COUNT = 5"
definition GRID_Y_COUNT :: int where "GRID_Y_COUNT = 4"
definition GRID_Z_COUNT :: int where "GRID_Z_COUNT = 10"

definition TETRA_SCALE :: real where "TETRA_SCALE = 3.5"
definition TETRA_NORMAL_OFFSET :: real where "TETRA_NORMAL_OFFSET = 50"

section \<open>Layout generators\<close>

text \<open>
  Every generator runs \<open>for (let i = 0; i < count; i++) { ...; targets.push(target); }\<close>
  over an array \<open>targets\<close>; \<open>push_loop\<close> is that loop, with the body's target as a
  function of \<open>i\<close>.
\<close>

function push_loop :: "(int \<Rightarrow> 'a) \<Rightarrow> int \<Rightarrow> int \<Rightarrow> 'a list \<Rightarrow> 'a list" where
  "push_loop body i count targets =
     (if i < count then push_loop body (i + 1) count (targets @ [body i]) else targets)"
  by pat_completeness auto
termination
  by (relation "measure (\<lambda>(body, i, count, targets). nat (count - i))") auto

declare push_loop.simps [simp del]

definition table_target :: "int \<Rightarrow> object3d" where
  "table_target i =
     (let col = js_rem i TABLE_COLS;
          row = floor_div i TABLE_COLS;
          x = (real_of_int col - real_of_int TABLE_COLS / 2 + 0.5) * TABLE_X_SPACING;
          y = (real_of_int TABLE_ROWS / 2 - real_of_int row - 0.5) * TABLE_Y_SPACING;
          z = 0
      in \<lparr>position = Vector3 x y z, rotation = Vector3 0 0 0\<rparr>)"

definition generateTableLayout :: "int \<Rightarrow> object3d list" where
  "generateTableLayout count = push_loop table_target 0 count []"

definition sphere_target :: "look_at \<Rightarrow> int \<Rightarrow> int \<Rightarrow> object3d" where
  "sphere_target lookAt count i =
     (let phi = arccos (- 1 + (2 * real_of_int i) / real_of_int count);
          theta = sqrt (real_of_int count * pi) * phi;
          x = SPHERE_RADIUS * cos theta * sin phi;
          y = SPHERE_RADIUS * sin theta * sin phi;
          z = SPHERE_RADIUS * cos phi
      in \<lparr>position = Vector3 x y z, rotation = lookAt (Vector3 x y z) (Vector3 0 0 0)\<rparr>)"

definition generateSphereLayout :: "look_at \<Rightarrow> int \<Rightarrow> object3d list" where
  "generateSphereLayout lookAt count = push_loop (sphere_target lookAt count) 0 count []"

definition helix_target :: "look_at \<Rightarrow> real \<Rightarrow> int \<Rightarrow> object3d" where
  "helix_target lookAt centerOffset i =
     (let strand = js_rem i 2;
          k = floor_div i 2;
          angleOffset = (if strand = 0 then 0 else pi);
          angle = real_of_int k * HELIX_TURN_ANGLE + angleOffset;
          strandOffset = (if strand = 0 then 20 else - 20);
          radiusWithOffset = HELIX_RADIUS + strandOffset;
          x = radiusWithOffset * cos angle;
          z = radiusWithOffset * sin angle;
          y = real_of_int k * HELIX_VERTICAL_STEP - centerOffset
      in \<lparr>position = Vector3 x y z, rotation = lookAt (Vector3 x y z) (Vector3 0 y 0)\<rparr>)"

definition generateHelixLayout :: "look_at \<Rightarrow> int \<Rightarrow> object3d list" where
  "generateHelixLayout lookAt count =
     (let strandSteps = ceil_div count 2;
          centerOffset = (real_of_int (strandSteps - 1) * HELIX_VERTICAL_STEP) / 2
      in push_loop (helix_target lookAt centerOffset) 0 count [])"

definition grid_target :: "int \<Rightarrow> object3d" where
  "grid_target i =
     (let x = js_rem i GRID_X_COUNT;
          y = js_rem (floor_div i GRID_X_COUNT) GRID_Y_COUNT;
          z = floor_div i (GRID_X_COUNT * GRID_Y_COUNT);
          posX = (real_of_int x - real_of_int GRID_X_COUNT / 2 + 0.5) * GRID_X_SPACING;
          posY = (real_of_int GRID_Y_COUNT / 2 - real_of_int y - 0.5) * GRID_Y_SPACING;
          posZ = (real_of_int z - real_of_int GRID_Z_COUNT / 2 + 0.5) * GRID_Z_SPACING
      in \<lparr>position = Vector3 posX posY posZ, rotation = Vector3 0 0 0\<rparr>)"

definition generateGridLayout :: "int \<Rightarrow> object3d list" where
  "generateGridLayout count = push_loop grid_target 0 count []"

subsection \<open>Tetrahedron\<close>

definition vertices :: "vec3 list" where
  "vertices =
     [multiplyScalar (Vector3 0 520 0) TETRA_SCALE,
      multiplyScalar (Vector3 (- 420) (- 320) (- 320)) TETRA_SCALE,
      multiplyScalar (Vector3 420 (- 320) (- 320)) TETRA_SCALE,
      multiplyScalar (Vector3 0 (- 320) 520) TETRA_SCALE]"

definition faces :: "(nat \<times> nat \<times> nat) list" where
  "faces = [(0, 1, 2), (0, 2, 3), (0, 3, 1), (1, 3, 2)]"

text \<open>The loop of \<open>hammersley\<close>: \<open>for (let i = 0.5; t > 0; i *= 0.5)\<close>.\<close>

function hammersley_loop :: "int \<Rightarrow> real \<Rightarrow> real \<Rightarrow> real" where
  "hammersley_loop t i p =
     (if t > 0 then hammersley_loop (floor_div t 2) (i * 0.5) (p + real_of_int (js_rem t 2) * i)
      else p)"
  by pat_completeness auto
termination
  by (relation "measure (\<lambda>(t, i, p). nat t)") (auto simp: floor_div_def floor_divide_of_int_eq [of _ 2, simplified])

declare hammersley_loop.simps [simp del]

definition hammersley :: "int \<Rightarrow> int \<Rightarrow> real \<times> real" where
  "hammersley k n = (real_of_int k / real_of_int n, hammersley_loop k 0.5 0)"

definition tetra_target :: "look_at \<Rightarrow> nat \<times> nat \<times> nat \<Rightarrow> int \<Rightarrow> int \<Rightarrow> object3d" where
  "tetra_target lookAt face itemsOnFace i =
     (let (aIdx, bIdx, cIdx) = face;
          a = vertices ! aIdx;
          b = vertices ! bIdx;
          c = vertices ! cIdx;
          edge1 = subVectors b a;
          edge2 = subVectors c a;
          tangent1 = normalize edge1;
          tangent2 = normalize edge2;
          normal = normalize (crossVectors edge1 edge2);
          faceCenter = divideScalar (addVector (addVector (addVector (Vector3 0 0 0) a) b) c) 3;
          (uRaw, vRaw) = hammersley i itemsOnFace;
          u = sqrt uRaw;
          v = vRaw * u;
          weightA = 1 - u;
          weightB = u - v;
          weightC = v;
          position0 = addScaledVector (addScaledVector (addScaledVector (Vector3 0 0 0)
                        a weightA) b weightB) c weightC;
          position1 = lerp position0 faceCenter 0.18;
          jitter1 = (uRaw - 0.5) * 30;
          jitter2 = (vRaw - 0.5) * 24;
          position2 = addScaledVector position1 tangent1 jitter1;
          position3 = addScaledVector position2 tangent2 jitter2;
          targetPosition = addScaledVector position3 normal TETRA_NORMAL_OFFSET
      in \<lparr>position = targetPosition,
          rotation = lookAt targetPosition (addVector position3 normal)\<rparr>)"

text \<open>The number of items the face loop gives to face \<open>faceIndex\<close>.\<close>

definition itemsOnFace_of :: "int \<Rightarrow> int \<Rightarrow> int \<Rightarrow> int" where
  "itemsOnFace_of basePerFace remainder faceIndex =
     basePerFace + (if faceIndex < remainder then 1 else 0)"

text \<open>
  The loop over the faces, \<open>for (let faceIndex = 0; faceIndex < faces.length; faceIndex++)\<close>,
  with its \<open>continue\<close> for a face without items and the inner loop pushing onto the
  shared \<open>targets\<close>.
\<close>

function tetra_faces :: "look_at \<Rightarrow> int \<Rightarrow> int \<Rightarrow> int \<Rightarrow> object3d list \<Rightarrow> object3d list" where
  "tetra_faces lookAt basePerFace remainder faceIndex targets =
     (if faceIndex < int (length faces) then
        (let itemsOnFace = itemsOnFace_of basePerFace remainder faceIndex in
         if itemsOnFace = 0 then tetra_faces lookAt basePerFace remainder (faceIndex + 1) targets
         else tetra_faces lookAt basePerFace remainder (faceIndex + 1)
                (push_loop (tetra_target lookAt (faces ! nat faceIndex) itemsOnFace) 0 itemsOnFace
                   targets))
      else targets)"
  by pat_completeness auto
termination
  by (relation "measure (\<lambda>(lookAt, basePerFace, remainder, faceIndex, targets).
        nat (int (length faces) - faceIndex))") auto

declare tetra_faces.simps [simp del]

definition generateTetraLayout :: "look_at \<Rightarrow> int \<Rightarrow> object3d list" where
  "generateTetraLayout lookAt count =
     (let basePerFace = floor_div count (int (length faces));
          remainder = js_rem count (int (length faces))
      in tetra_faces lookAt basePerFace remainder 0 [])"

subsection \<open>All layouts\<close>

record layout_targets =
  table :: "object3d list"
  sphere :: "object3d list"
  helix :: "object3d list"
  grid :: "object3d list"
  tetra :: "object3d list"

definition generateLayoutTargets :: "look_at \<Rightarrow> int \<Rightarrow> layout_targets completion" where
  "generateLayoutTargets lookAt count =
     Returns \<lparr>table = generateTableLayout count,
              sphere = generateSphereLayout lookAt count,
              helix = generateHelixLayout lookAt count,
              grid = generateGridLayout count,
              tetra = generateTetraLayout lookAt count\<rparr>"

text \<open>Reading a layout by its name, as \<open>layoutTargets[layoutId]\<close> does.\<close>

datatype layout_name = Table | Sphere | Helix | Grid | Tetra

fun layout_of :: "layout_targets \<Rightarrow> layout_name \<Rightarrow> object3d list" where
  "layout_of r Table = table r"
| "layout_of r Sphere = sphere r"
| "layout_of r Helix = helix r"
| "layout_of r Grid = grid r"
| "layout_of r Tetra = tetra r"

section \<open>Transition engine\<close>

subsection \<open>State\<close>

text \<open>
  The tiles are objects with an identity; \<open>object.position\<close> and \<open>object.rotation\<close> are
  the two mutable triples a tween animates.
\<close>

type_synonym obj_ref = nat

datatype animated = PositionOf obj_ref | RotationOf obj_ref

text \<open>
  Modelled from the spec: a started tween of the tween library (\<open>@tweenjs/tween.js\<close> is
  imported by the sources, not part of them), the transient animation state of one
  animated triple: start values, end values, start timestamp and duration. The identifier
  stands for the identity of the \<open>Tween\<close> object.
\<close>

record tween =
  tw_id :: nat
  tw_object :: animated
  tw_valuesStart :: vec3
  tw_valuesEnd :: vec3
  tw_duration :: real
  tw_startTime :: real

datatype console_line =
  ErrorInvalidParameters | WarnNoObjects | WarnMismatch nat nat | WarnInvalidAt nat

text \<open>
  The state the transition code reads and writes: the poses of the objects, the module
  variable \<open>activeTweens\<close>, the library's set of started tweens (in creation order), the
  next tween identity, the clock that \<open>start()\<close> and \<open>update()\<close> sample, and the console.
\<close>

record engine =
  positions :: "obj_ref \<Rightarrow> vec3"
  rotations :: "obj_ref \<Rightarrow> vec3"
  activeTweens :: "nat list"
  playing :: "tween list"
  nextId :: nat
  clock :: real
  console :: "console_line list"

definition read_property :: "animated \<Rightarrow> engine \<Rightarrow> vec3" where
  "read_property ob s =
     (case ob of PositionOf obj \<Rightarrow> positions s obj | RotationOf obj \<Rightarrow> rotations s obj)"

definition write_property :: "animated \<Rightarrow> vec3 \<Rightarrow> engine \<Rightarrow> engine" where
  "write_property ob v s =
     (case ob of
        PositionOf obj \<Rightarrow> s\<lparr>positions := (positions s)(obj := v)\<rparr>
      | RotationOf obj \<Rightarrow> s\<lparr>rotations := (rotations s)(obj := v)\<rparr>)"

definition log_line :: "console_line \<Rightarrow> engine \<Rightarrow> engine" where
  "log_line l s = s\<lparr>console := console s @ [l]\<rparr>"

text \<open>The clock moves between calls, never during one.\<close>

definition advance_clock :: "real \<Rightarrow> engine \<Rightarrow> engine" where
  "advance_clock dt s = s\<lparr>clock := clock s + dt\<rparr>"

subsection \<open>The tween library\<close>

text \<open>
  Modelled from the spec: the ease-in-out cubic curve \<open>TWEEN.Easing.Cubic.InOut\<close>,
  accelerating over the first half and decelerating over the second.
\<close>

definition Cubic_InOut :: "real \<Rightarrow> real" where
  "Cubic_InOut amount =
     (if amount * 2 < 1 then 0.5 * (amount * 2) * (amount * 2) * (amount * 2)
      else 0.5 * ((amount * 2 - 2) * (amount * 2 - 2) * (amount * 2 - 2) + 2))"

text \<open>
  Modelled from the spec: the interpolated value of a tween, each component moved from its
  start to its end by the eased portion, the components independent of each other.
\<close>

definition interpolate :: "vec3 \<Rightarrow> vec3 \<Rightarrow> real \<Rightarrow> vec3" where
  "interpolate start end value =
     Vector3 (vx start + (vx end - vx start) * value) (vy start + (vy end - vy start) * value)
       (vz start + (vz end - vz start) * value)"

text \<open>
  Modelled from the spec: \<open>new TWEEN.Tween(ob).to(valuesEnd, duration). ... .start()\<close> of the
  tween library. Starting captures the current values of the animated triple as the start
  of the interpolation and the clock as the start timestamp, and adds the tween to the
  started ones; it writes no pose.
\<close>

definition tween_start :: "animated \<Rightarrow> vec3 \<Rightarrow> real \<Rightarrow> engine \<Rightarrow> nat \<times> engine" where
  "tween_start ob valuesEnd duration s =
     (let tw = \<lparr>tw_id = nextId s, tw_object = ob, tw_valuesStart = read_property ob s,
                 tw_valuesEnd = valuesEnd, tw_duration = duration, tw_startTime = clock s\<rparr>
      in (nextId s, s\<lparr>playing := playing s @ [tw], nextId := nextId s + 1\<rparr>))"

text \<open>
  Modelled from the spec: \<open>tween.stop()\<close> of the tween library. The tween is discarded: it
  leaves the started ones without being completed to its end values.
\<close>

definition tween_stop :: "nat \<Rightarrow> engine \<Rightarrow> engine" where
  "tween_stop tid s = s\<lparr>playing := filter (\<lambda>tw. tw_id tw \<noteq> tid) (playing s)\<rparr>"

text \<open>
  Modelled from the spec: the normalised time of a tween, \<open>min(1, elapsed / duration)\<close>; a
  tween of duration 0 is at 1 at once.
\<close>

definition elapsed_portion :: "real \<Rightarrow> tween \<Rightarrow> real" where
  "elapsed_portion time tw =
     (let elapsed = (time - tw_startTime tw) / tw_duration tw
      in if tw_duration tw = 0 \<or> elapsed > 1 then 1 else elapsed)"

text \<open>
  Modelled from the spec: one tween's share of \<open>TWEEN.update(time)\<close>. The eased
  interpolation is written into the animated triple; when the normalised time reaches 1
  the tween is completed: its \<open>onComplete\<close> callback runs, which in
  \<open>createTweensForObject\<close> is \<open>activeTweens.indexOf\<close> and \<open>splice\<close>, and it leaves the
  started tweens. The spec considers timestamps that never go back; a timestamp before the
  tween's start leaves the tween untouched, as the library does.
\<close>

definition tween_update :: "real \<Rightarrow> tween \<Rightarrow> engine \<Rightarrow> engine" where
  "tween_update time tw s =
     (if time < tw_startTime tw then s
      else
        let elapsed = elapsed_portion time tw;
            value = Cubic_InOut elapsed;
            s1 = write_property (tw_object tw)
                   (interpolate (tw_valuesStart tw) (tw_valuesEnd tw) value) s
        in if elapsed = 1
           then s1\<lparr>activeTweens := remove1 (tw_id tw) (activeTweens s1),
                   playing := filter (\<lambda>t. tw_id t \<noteq> tw_id tw) (playing s1)\<rparr>
           else s1)"

text \<open>Modelled from the spec: the loop of \<open>TWEEN.update\<close> over the started tweens.\<close>

fun update_tweens :: "real \<Rightarrow> tween list \<Rightarrow> engine \<Rightarrow> engine" where
  "update_tweens time [] s = s"
| "update_tweens time (tw # tws) s = update_tweens time tws (tween_update time tw s)"

text \<open>
  Modelled from the spec: \<open>TWEEN.update(time)\<close>; without a timestamp the library samples
  its own clock.
\<close>

definition TWEEN_update :: "real option \<Rightarrow> engine \<Rightarrow> engine" where
  "TWEEN_update time s =
     update_tweens (case time of None \<Rightarrow> clock s | Some t \<Rightarrow> t) (playing s) s"

subsection \<open>transform.js\<close>

definition DEFAULT_DURATION :: real where "DEFAULT_DURATION = 2000"

text \<open>An argument that \<open>Array.isArray\<close> inspects; an array's entries may be null.\<close>

datatype 'a js_array = NotAnArray | ArrayOf "'a list"

definition createTweensForObject :: "obj_ref \<Rightarrow> object3d \<Rightarrow> real \<Rightarrow> engine \<Rightarrow> engine" where
  "createTweensForObject object target duration s =
     (let (positionTween, s1) = tween_start (PositionOf object) (position target) duration s;
          (rotationTween, s2) = tween_start (RotationOf object) (rotation target) duration s1
      in s2\<lparr>activeTweens := activeTweens s2 @ [positionTween, rotationTween]\<rparr>)"

definition stopAllTweens :: "engine \<Rightarrow> engine" where
  "stopAllTweens s = (fold tween_stop (activeTweens s) s)\<lparr>activeTweens := []\<rparr>"

text \<open>\<open>targets[index]\<close>: undefined beyond the end of the array.\<close>

definition element_at :: "'a option list \<Rightarrow> nat \<Rightarrow> 'a option" where
  "element_at xs index = (if index < length xs then xs ! index else None)"

text \<open>The body of \<open>objects.forEach((object, index) => ...)\<close> in \<open>transform\<close>.\<close>

fun forEach_create ::
  "real \<Rightarrow> obj_ref option list \<Rightarrow> object3d option list \<Rightarrow> nat \<Rightarrow> engine \<Rightarrow> engine" where
  "forEach_create duration [] targets index s = s"
| "forEach_create duration (object # rest) targets index s =
     forEach_create duration rest targets (index + 1)
       (case (object, element_at targets index) of
          (Some obj, Some target) \<Rightarrow> createTweensForObject obj target duration s
        | _ \<Rightarrow> log_line (WarnInvalidAt index) s)"

text \<open>
  \<open>transform(objects, targets, duration = DEFAULT_DURATION)\<close>: the completion of the call
  and the state it leaves. Every early \<open>return\<close> is a normal return after a console line.
\<close>

definition transform ::
  "obj_ref option js_array \<Rightarrow> object3d option js_array \<Rightarrow> real option \<Rightarrow> engine \<Rightarrow>
     unit completion \<times> engine" where
  "transform objects targets duration s =
     (case (objects, targets) of
        (ArrayOf objs, ArrayOf tgts) \<Rightarrow>
          if length objs = 0 then (Returns (), log_line WarnNoObjects s)
          else if length objs \<noteq> length tgts
            then (Returns (), log_line (WarnMismatch (length objs) (length tgts)) s)
          else (Returns (),
                forEach_create (case duration of None \<Rightarrow> DEFAULT_DURATION | Some d \<Rightarrow> d)
                  objs tgts 0 (stopAllTweens s))
      | _ \<Rightarrow> (Returns (), log_line ErrorInvalidParameters s))"

definition update :: "real option \<Rightarrow> engine \<Rightarrow> engine" where
  "update time s = TWEEN_update time s"

text \<open>
  The animation loop of the scene, \<open>animate\<close>: every frame calls \<open>update\<close> without a
  timestamp. A run of the loop is given by the time that passes before each frame.
\<close>

fun run_frames :: "real list \<Rightarrow> engine \<Rightarrow> engine" where
  "run_frames [] s = s"
| "run_frames (dt # dts) s = run_frames dts (update None (advance_clock dt s))"

section \<open>Notions used in the statements\<close>

text \<open>The targets the inner loop of \<open>generateTetraLayout\<close> pushes for one face.\<close>

definition tetra_face_items :: "look_at \<Rightarrow> int \<Rightarrow> int \<Rightarrow> object3d list" where
  "tetra_face_items lookAt count faceIndex =
     (let itemsOnFace = itemsOnFace_of (floor_div count (int (length faces)))
                          (js_rem count (int (length faces))) faceIndex
      in push_loop (tetra_target lookAt (faces ! nat faceIndex) itemsOnFace) 0 itemsOnFace [])"

text \<open>A \<open>lookAt\<close> for the examples: it leaves the rotation at \<open>(0, 0, 0)\<close>.\<close>

definition no_turn :: look_at where
  "no_turn p t = Vector3 0 0 0"

text \<open>
  The state when the module is loaded: no tween, and every object at the pose of a fresh
  \<open>Object3D\<close>.
\<close>

definition engine0 :: engine where
  "engine0 = \<lparr>positions = (\<lambda>obj. Vector3 0 0 0), rotations = (\<lambda>obj. Vector3 0 0 0),
              activeTweens = [], playing = [], nextId = 0, clock = 0, console = []\<rparr>"

text \<open>
  Every started tween is in \<open>activeTweens\<close>. It holds when the module is loaded, and
  \<open>transform\<close> and \<open>update\<close> keep it.
\<close>

definition tracked :: "engine \<Rightarrow> bool" where
  "tracked s = list_all (\<lambda>tw. tw_id tw \<in> set (activeTweens s)) (playing s)"

text \<open>The duration a call of \<open>transform\<close> uses.\<close>

definition chosen_duration :: "real option \<Rightarrow> real" where
  "chosen_duration duration = (case duration of None \<Rightarrow> DEFAULT_DURATION | Some d \<Rightarrow> d)"

text \<open>
  The tweens one call of \<open>transform\<close> is expected to create in state \<open>s\<close>, the first with
  identity \<open>n\<close>: for each object in turn a position tween and a rotation tween, from the
  object's current values to those of its target.
\<close>

fun created_tweens :: "engine \<Rightarrow> real \<Rightarrow> nat \<Rightarrow> obj_ref list \<Rightarrow> object3d list \<Rightarrow> tween list" where
  "created_tweens s duration n (obj # objs) (target # targets) =
     \<lparr>tw_id = n, tw_object = PositionOf obj, tw_valuesStart = positions s obj,
       tw_valuesEnd = position target, tw_duration = duration, tw_startTime = clock s\<rparr> #
     \<lparr>tw_id = n + 1, tw_object = RotationOf obj, tw_valuesStart = rotations s obj,
       tw_valuesEnd = rotation target, tw_duration = duration, tw_startTime = clock s\<rparr> #
     created_tweens s duration (n + 2) objs targets"
| "created_tweens s duration n objs targets = []"

text \<open>Two targets for the examples.\<close>

definition target_B :: object3d where
  "target_B = \<lparr>position = Vector3 50 0 0, rotation = Vector3 0 0 0\<rparr>"

definition target_C :: object3d where
  "target_C = \<lparr>position = Vector3 100 0 0, rotation = Vector3 0 0 0\<rparr>"

text \<open>A target that lies off the straight line from the origin to \<open>target_C\<close>.\<close>

definition target_aside :: object3d where
  "target_aside = \<lparr>position = Vector3 0 70 0, rotation = Vector3 0 0 0\<rparr>"

text \<open>
  The eased portion of a transition of duration \<open>d\<close> after the given frames, counted from
  the call that began it: nothing before the first frame, then the easing of the
  normalised time of the last frame.
\<close>

definition eased_progress :: "real \<Rightarrow> real list \<Rightarrow> real" where
  "eased_progress d frames =
     (if frames = [] then 0 else Cubic_InOut (min 1 (sum_list frames / d)))"

section \<open>Facts about the loops\<close>

lemma push_loop_upto: "push_loop body i count targets = targets @ map body [i..count - 1]"
proof (induction body i count targets rule: push_loop.induct)
  case (1 body i count targets)
  show ?case
  proof (cases "i < count")
    case True
    then have "[i..count - 1] = i # [i + 1..count - 1]"
      by (simp add: upto_rec1)
    with True 1 show ?thesis
      by (simp add: push_loop.simps [of body i])
  next
    case False
    then show ?thesis
      by (simp add: push_loop.simps [of body i])
  qed
qed

lemma length_push_loop: "length (push_loop body 0 count []) = nat count"
  by (simp add: push_loop_upto)

lemma js_rem_nonneg: "0 \<le> a \<Longrightarrow> 0 < b \<Longrightarrow> js_rem a b = a mod b"
  by (cases "a = 0") (simp_all add: js_rem_def)

lemma floor_div_eq: "floor_div a b = a div b"
  by (simp add: floor_div_def floor_divide_of_int_eq)

lemma nth_push_loop:
  "i < nat count \<Longrightarrow> push_loop body 0 count [] ! i = body (int i)"
  by (simp add: push_loop_upto)

lemma push_loop_acc: "push_loop body i count targets = targets @ push_loop body i count []"
  by (simp add: push_loop_upto)

lemma push_loop_none: "count \<le> i \<Longrightarrow> push_loop body i count targets = targets"
  by (simp add: push_loop.simps [of body i])

lemma tetra_faces_step:
  "faceIndex < 4 \<Longrightarrow>
   tetra_faces lookAt b r faceIndex targets =
   tetra_faces lookAt b r (faceIndex + 1)
     (targets @ push_loop (tetra_target lookAt (faces ! nat faceIndex) (itemsOnFace_of b r faceIndex))
        0 (itemsOnFace_of b r faceIndex) [])"
  apply (subst tetra_faces.simps)
  apply (simp add: faces_def Let_def push_loop_none)
  apply (subst push_loop_acc)
  apply simp
  done

lemma tetra_faces_end: "tetra_faces lookAt b r 4 targets = targets"
  by (subst tetra_faces.simps) (simp add: faces_def)

lemma generateTetraLayout_blocks:
  "generateTetraLayout lookAt count = concat (map (tetra_face_items lookAt count) [0, 1, 2, 3])"
  by (simp add: generateTetraLayout_def tetra_face_items_def Let_def tetra_faces_step tetra_faces_end)

lemma length_tetra_face_items:
  "0 \<le> count \<Longrightarrow> 0 \<le> f \<Longrightarrow>
   length (tetra_face_items lookAt count f) = nat (count div 4 + (if f < count mod 4 then 1 else 0))"
  by (simp add: tetra_face_items_def Let_def push_loop_upto itemsOnFace_of_def floor_div_eq
      js_rem_nonneg faces_def)

lemma length_generateTableLayout: "length (generateTableLayout count) = nat count"
  by (simp add: generateTableLayout_def length_push_loop)

lemma length_generateSphereLayout: "length (generateSphereLayout lookAt count) = nat count"
  by (simp add: generateSphereLayout_def length_push_loop)

lemma length_generateHelixLayout: "length (generateHelixLayout lookAt count) = nat count"
  by (simp add: generateHelixLayout_def Let_def length_push_loop)

lemma length_generateGridLayout: "length (generateGridLayout count) = nat count"
  by (simp add: generateGridLayout_def length_push_loop)

lemma length_generateTetraLayout:
  assumes "0 \<le> count"
  shows "length (generateTetraLayout lookAt count) = nat count"
proof -
  define q where "q = count div 4"
  define r where "r = count mod 4"
  have c: "count = 4 * q + r" "0 \<le> r" "r < 4" "0 \<le> q"
    using assms by (simp_all add: q_def r_def)
  have "length (tetra_face_items lookAt count f) = nat (q + (if f < r then 1 else 0))"
    if "0 \<le> f" for f
    using length_tetra_face_items [OF assms that] by (simp add: q_def r_def)
  then have "length (generateTetraLayout lookAt count) =
      nat (q + (if 0 < r then 1 else 0)) + nat (q + (if 1 < r then 1 else 0)) +
      nat (q + (if 2 < r then 1 else 0)) + nat (q + (if 3 < r then 1 else 0))"
    by (simp add: generateTetraLayout_blocks)
  also have "\<dots> = nat count"
    using c by (auto split: if_splits)
  finally show ?thesis .
qed

lemma itemsOnFace_sum:
  "0 \<le> count \<Longrightarrow>
   (\<Sum>f\<leftarrow>[0, 1, 2, 3]. itemsOnFace_of (floor_div count 4) (js_rem count 4) f) = count"
  by (simp add: itemsOnFace_of_def floor_div_eq js_rem_nonneg) presburger

lemma layouts_of_negative_count:
  assumes "count < 0"
  shows "generateLayoutTargets lookAt count =
           Returns \<lparr>table = [], sphere = [], helix = [], grid = [], tetra = []\<rparr>"
proof -
  have "js_rem count 4 \<le> 0"
    using assms by (simp add: js_rem_def)
  moreover have "count div 4 < 0"
    using assms by simp
  ultimately have "itemsOnFace_of (floor_div count 4) (js_rem count 4) f < 0" if "0 \<le> f" for f
    using that by (simp add: itemsOnFace_of_def floor_div_eq)
  from this [of 0] this [of 1] this [of 2] this [of 3]
  have "length (generateTetraLayout lookAt count) = 0"
    by (simp add: generateTetraLayout_blocks tetra_face_items_def Let_def push_loop_upto faces_def)
  then show ?thesis
    using assms
    by (simp add: generateLayoutTargets_def generateTableLayout_def generateSphereLayout_def
      generateHelixLayout_def generateGridLayout_def Let_def push_loop_none)
qed

section \<open>Facts about the transition engine\<close>

lemma fold_tween_stop:
  "fold tween_stop ids s = s\<lparr>playing := filter (\<lambda>tw. tw_id tw \<notin> set ids) (playing s)\<rparr>"
proof (induction ids arbitrary: s)
  case Nil
  show ?case by simp
next
  case (Cons tid ids)
  have "filter (\<lambda>tw. tw_id tw \<notin> set ids) (filter (\<lambda>tw. tw_id tw \<noteq> tid) (playing s)) =
      filter (\<lambda>tw. tw_id tw \<notin> set (tid # ids)) (playing s)"
    by (induction "playing s") (auto simp: filter_filter conj_commute)
  then show ?case
    by (simp add: Cons.IH) (simp add: tween_stop_def)
qed

lemma stopAllTweens_eq:
  "stopAllTweens s =
     s\<lparr>activeTweens := [], playing := filter (\<lambda>tw. tw_id tw \<notin> set (activeTweens s)) (playing s)\<rparr>"
  by (simp add: stopAllTweens_def fold_tween_stop)

lemma createTweensForObject_eq:
  "createTweensForObject obj target d s =
     s\<lparr>activeTweens := activeTweens s @ [nextId s, nextId s + 1],
       playing := playing s @ created_tweens s d (nextId s) [obj] [target],
       nextId := nextId s + 2\<rparr>"
  by (simp add: createTweensForObject_def tween_start_def Let_def read_property_def)

lemma created_tweens_cong:
  "positions s' = positions s \<Longrightarrow> rotations s' = rotations s \<Longrightarrow> clock s' = clock s \<Longrightarrow>
   created_tweens s' d n objs tgts = created_tweens s d n objs tgts"
  by (induction s d n objs tgts rule: created_tweens.induct) simp_all

lemma forEach_create_eq:
  "index + length items = length tgts \<Longrightarrow>
   forEach_create d (map Some items) (map Some tgts) index s =
     s\<lparr>activeTweens := activeTweens s @ map tw_id (created_tweens s d (nextId s) items (drop index tgts)),
       playing := playing s @ created_tweens s d (nextId s) items (drop index tgts),
       nextId := nextId s + 2 * length items\<rparr>"
proof (induction items arbitrary: index s)
  case Nil
  then show ?case by simp
next
  case (Cons obj items)
  let ?s1 = "createTweensForObject obj (tgts ! index) d s"
  from Cons.prems have idx: "index < length tgts" by simp
  then have dr: "drop index tgts = tgts ! index # drop (index + 1) tgts"
    by (simp add: Cons_nth_drop_Suc)
  have el: "element_at (map Some tgts) index = Some (tgts ! index)"
    using idx by (simp add: element_at_def)
  have cg: "created_tweens ?s1 d n xs ys = created_tweens s d n xs ys" for n xs ys
    by (rule created_tweens_cong) (simp_all add: createTweensForObject_eq)
  have "forEach_create d (map Some (obj # items)) (map Some tgts) index s =
      forEach_create d (map Some items) (map Some tgts) (index + 1) ?s1"
    by (simp add: el)
  also have "\<dots> = ?s1\<lparr>activeTweens := activeTweens ?s1 @
        map tw_id (created_tweens ?s1 d (nextId ?s1) items (drop (index + 1) tgts)),
       playing := playing ?s1 @ created_tweens ?s1 d (nextId ?s1) items (drop (index + 1) tgts),
       nextId := nextId ?s1 + 2 * length items\<rparr>"
    using Cons.prems by (intro Cons.IH) simp
  also have "\<dots> = s\<lparr>activeTweens := activeTweens s @
        map tw_id (created_tweens s d (nextId s) (obj # items) (drop index tgts)),
       playing := playing s @ created_tweens s d (nextId s) (obj # items) (drop index tgts),
       nextId := nextId s + 2 * length (obj # items)\<rparr>"
    unfolding cg dr by (simp add: createTweensForObject_eq)
  finally show ?case .
qed

lemma transform_eq:
  assumes "items \<noteq> []" and "length items = length tgts"
  shows "transform (ArrayOf (map Some items)) (ArrayOf (map Some tgts)) (Some d) s =
     (Returns (),
      s\<lparr>activeTweens := map tw_id (created_tweens s d (nextId s) items tgts),
        playing := filter (\<lambda>tw. tw_id tw \<notin> set (activeTweens s)) (playing s) @
                   created_tweens s d (nextId s) items tgts,
        nextId := nextId s + 2 * length items\<rparr>)"
proof -
  have cg: "created_tweens (stopAllTweens s) d n xs ys = created_tweens s d n xs ys" for n xs ys
    by (rule created_tweens_cong) (simp_all add: stopAllTweens_eq)
  have "forEach_create d (map Some items) (map Some tgts) 0 (stopAllTweens s) =
     s\<lparr>activeTweens := map tw_id (created_tweens s d (nextId s) items tgts),
        playing := filter (\<lambda>tw. tw_id tw \<notin> set (activeTweens s)) (playing s) @
                   created_tweens s d (nextId s) items tgts,
        nextId := nextId s + 2 * length items\<rparr>"
    using assms by (subst forEach_create_eq) (simp_all add: cg, simp add: stopAllTweens_eq)
  moreover from assms have "tgts \<noteq> []"
    by auto
  ultimately show ?thesis
    using assms by (simp add: transform_def)
qed

lemma Cubic_InOut_one: "Cubic_InOut 1 = 1"
  by (simp add: Cubic_InOut_def)

lemma interpolate_one: "interpolate a b 1 = b"
  by (cases b) (simp add: interpolate_def)

lemma read_write_same: "read_property ob (write_property ob v s) = v"
  by (cases ob) (simp_all add: read_property_def write_property_def)

lemma read_write_other: "ob' \<noteq> ob \<Longrightarrow> read_property ob' (write_property ob v s) = read_property ob' s"
  by (cases ob; cases ob') (simp_all add: read_property_def write_property_def)

lemma write_property_fields:
  "activeTweens (write_property ob v s) = activeTweens s"
  "playing (write_property ob v s) = playing s"
  "clock (write_property ob v s) = clock s"
  "nextId (write_property ob v s) = nextId s"
  "console (write_property ob v s) = console s"
  by (cases ob; simp add: write_property_def)+

lemma read_property_more:
  "read_property ob (s\<lparr>activeTweens := a, playing := p\<rparr>) = read_property ob s"
  by (cases ob) (simp_all add: read_property_def)

lemma tween_update_done:
  assumes "tw_startTime tw \<le> time" and "elapsed_portion time tw = 1"
  shows "tween_update time tw s =
     (write_property (tw_object tw) (tw_valuesEnd tw) s)
       \<lparr>activeTweens := remove1 (tw_id tw) (activeTweens s),
        playing := filter (\<lambda>t. tw_id t \<noteq> tw_id tw) (playing s)\<rparr>"
  using assms
  by (simp add: tween_update_def Let_def Cubic_InOut_one interpolate_one write_property_fields)

lemma tween_update_frame:
  "ob \<noteq> tw_object tw \<Longrightarrow> read_property ob (tween_update time tw s) = read_property ob s"
  by (simp add: tween_update_def Let_def read_property_more read_write_other)

lemma update_tweens_frame:
  "ob \<notin> tw_object ` set tws \<Longrightarrow> read_property ob (update_tweens time tws s) = read_property ob s"
  by (induction tws arbitrary: s) (auto simp: tween_update_frame)

lemma update_tweens_done_value:
  assumes "\<forall>tw\<in>set tws. tw_startTime tw \<le> time \<and> elapsed_portion time tw = 1"
    and "distinct (map tw_object tws)" and "tw \<in> set tws"
  shows "read_property (tw_object tw) (update_tweens time tws s) = tw_valuesEnd tw"
  using assms
proof (induction tws arbitrary: s)
  case Nil
  then show ?case by simp
next
  case (Cons a tws)
  show ?case
  proof (cases "tw \<in> set tws")
    case True
    with Cons show ?thesis by simp
  next
    case False
    with Cons.prems have eq: "tw = a" and nin: "tw_object a \<notin> tw_object ` set tws"
      and fin: "tw_startTime a \<le> time" "elapsed_portion time a = 1"
      by auto
    have "read_property (tw_object a) (update_tweens time tws (tween_update time a s)) =
        read_property (tw_object a) (tween_update time a s)"
      using nin by (rule update_tweens_frame)
    also have "\<dots> = tw_valuesEnd a"
      by (simp add: tween_update_done [OF fin] read_property_more read_write_same)
    finally show ?thesis
      by (simp add: eq)
  qed
qed

lemma update_tweens_done_sets:
  assumes "\<forall>tw\<in>set tws. tw_startTime tw \<le> time \<and> elapsed_portion time tw = 1"
  shows "activeTweens (update_tweens time tws s) = fold remove1 (map tw_id tws) (activeTweens s) \<and>
         playing (update_tweens time tws s) =
           filter (\<lambda>t. tw_id t \<notin> tw_id ` set tws) (playing s) \<and>
         clock (update_tweens time tws s) = clock s \<and>
         nextId (update_tweens time tws s) = nextId s \<and>
         console (update_tweens time tws s) = console s"
  using assms
proof (induction tws arbitrary: s)
  case Nil
  then show ?case by simp
next
  case (Cons a tws)
  then have fin: "tw_startTime a \<le> time" "elapsed_portion time a = 1"
    by auto
  have "filter (\<lambda>t. tw_id t \<notin> tw_id ` set tws) (filter (\<lambda>t. tw_id t \<noteq> tw_id a) (playing s)) =
      filter (\<lambda>t. tw_id t \<notin> tw_id ` set (a # tws)) (playing s)"
    by (induction "playing s") (auto simp: filter_filter conj_commute)
  with Cons show ?case
    by (simp add: tween_update_done [OF fin] write_property_fields)
qed

lemma fold_remove1_prefix: "fold remove1 xs (xs @ ys) = ys"
  by (induction xs) simp_all

lemma length_created_tweens:
  "length items = length tgts \<Longrightarrow> length (created_tweens s d n items tgts) = 2 * length items"
  by (induction s d n items tgts rule: created_tweens.induct) simp_all

lemma created_tweens_nth:
  "length items = length tgts \<Longrightarrow> i < length items \<Longrightarrow>
   created_tweens s d n items tgts ! (2 * i) =
     \<lparr>tw_id = n + 2 * i, tw_object = PositionOf (items ! i), tw_valuesStart = positions s (items ! i),
       tw_valuesEnd = position (tgts ! i), tw_duration = d, tw_startTime = clock s\<rparr> \<and>
   created_tweens s d n items tgts ! (2 * i + 1) =
     \<lparr>tw_id = n + 2 * i + 1, tw_object = RotationOf (items ! i),
       tw_valuesStart = rotations s (items ! i),
       tw_valuesEnd = rotation (tgts ! i), tw_duration = d, tw_startTime = clock s\<rparr>"
proof (induction s d n items tgts arbitrary: i rule: created_tweens.induct)
  case (1 s duration n obj objs target targets)
  then show ?case
    by (cases i) simp_all
qed simp_all

lemma created_tweens_ids:
  "length items = length tgts \<Longrightarrow>
   map tw_id (created_tweens s d n items tgts) = [n..<n + 2 * length items]"
proof (induction s d n items tgts rule: created_tweens.induct)
  case (1 s duration n obj objs target targets)
  let ?m = "n + 2 * length (obj # objs)"
  have "[n..<?m] = n # [Suc n..<?m]"
    by (rule upt_conv_Cons) simp
  also have "[Suc n..<?m] = Suc n # [Suc (Suc n)..<?m]"
    by (rule upt_conv_Cons) simp
  finally have "[n..<?m] = n # Suc n # [n + 2..<n + 2 + 2 * length objs]"
    by simp
  moreover from 1 have "map tw_id (created_tweens s duration (n + 2) objs targets) =
      [n + 2..<n + 2 + 2 * length objs]"
    by simp
  ultimately show ?case
    by simp
qed simp_all

lemma created_tweens_objects:
  "length items = length tgts \<Longrightarrow>
   map tw_object (created_tweens s d n items tgts) =
     concat (map (\<lambda>obj. [PositionOf obj, RotationOf obj]) items)"
  by (induction s d n items tgts rule: created_tweens.induct) simp_all

lemma distinct_created_objects:
  assumes "length items = length tgts" and "distinct items"
  shows "distinct (map tw_object (created_tweens s d n items tgts))"
proof -
  have "distinct (concat (map (\<lambda>obj. [PositionOf obj, RotationOf obj]) items))"
    using assms(2) by (induction items) auto
  then show ?thesis
    by (simp add: created_tweens_objects [OF assms(1)])
qed

lemma created_tweens_times:
  "tw \<in> set (created_tweens s d n items tgts) \<Longrightarrow> tw_startTime tw = clock s \<and> tw_duration tw = d"
  by (induction s d n items tgts rule: created_tweens.induct) auto

lemma tracked_filter:
  "tracked s \<Longrightarrow> filter (\<lambda>tw. tw_id tw \<notin> set (activeTweens s)) (playing s) = []"
  by (simp add: tracked_def list_all_iff filter_empty_conv)

lemma transform_mismatch:
  "length objs \<noteq> length tgts \<Longrightarrow>
   transform (ArrayOf objs) (ArrayOf tgts) duration s =
     (Returns (),
      log_line (if objs = [] then WarnNoObjects else WarnMismatch (length objs) (length tgts)) s)"
  by (simp add: transform_def)

lemma transform_eq_opt:
  assumes "items \<noteq> []" and "length items = length tgts"
  shows "transform (ArrayOf (map Some items)) (ArrayOf (map Some tgts)) duration s =
     (Returns (),
      s\<lparr>activeTweens := map tw_id (created_tweens s (chosen_duration duration) (nextId s) items tgts),
        playing := filter (\<lambda>tw. tw_id tw \<notin> set (activeTweens s)) (playing s) @
                   created_tweens s (chosen_duration duration) (nextId s) items tgts,
        nextId := nextId s + 2 * length items\<rparr>)"
proof (cases duration)
  case None
  have "transform (ArrayOf (map Some items)) (ArrayOf (map Some tgts)) None s =
      transform (ArrayOf (map Some items)) (ArrayOf (map Some tgts)) (Some DEFAULT_DURATION) s"
    by (simp add: transform_def)
  with None show ?thesis
    by (simp add: transform_eq [OF assms] chosen_duration_def)
next
  case (Some d)
  then show ?thesis
    by (simp add: transform_eq [OF assms] chosen_duration_def)
qed

lemma transform_tracked_state:
  assumes "tracked s" and "items \<noteq> []" and "length items = length tgts"
  shows "snd (transform (ArrayOf (map Some items)) (ArrayOf (map Some tgts)) duration s) =
      s\<lparr>activeTweens := map tw_id (created_tweens s (chosen_duration duration) (nextId s) items tgts),
        playing := created_tweens s (chosen_duration duration) (nextId s) items tgts,
        nextId := nextId s + 2 * length items\<rparr>"
  by (simp add: transform_eq_opt [OF assms(2,3)] tracked_filter [OF assms(1)])

lemma tracked_after_transform:
  assumes "tracked s" and "items \<noteq> []" and "length items = length tgts"
  shows "tracked (snd (transform (ArrayOf (map Some items)) (ArrayOf (map Some tgts)) duration s))"
  by (simp add: transform_tracked_state [OF assms] tracked_def list_all_iff)

lemma elapsed_portion_done:
  assumes "tw_duration tw = 0 \<or> (0 < tw_duration tw \<and> tw_startTime tw + tw_duration tw \<le> time)"
  shows "elapsed_portion time tw = 1"
proof (cases "tw_duration tw = 0")
  case True
  then show ?thesis by (simp add: elapsed_portion_def)
next
  case False
  with assms have "0 < tw_duration tw" "tw_duration tw \<le> time - tw_startTime tw"
    by auto
  then have "1 \<le> (time - tw_startTime tw) / tw_duration tw"
    by (simp add: le_divide_eq)
  then show ?thesis
    by (auto simp add: elapsed_portion_def Let_def)
qed

lemma transition_completes:
  assumes tr: "tracked s" and ne: "items \<noteq> []" and len: "length items = length tgts"
    and dist: "distinct items" and dt: "0 \<le> dt" and dur: "d = 0 \<or> (0 < d \<and> d \<le> dt)"
  defines "s1 \<equiv> snd (transform (ArrayOf (map Some items)) (ArrayOf (map Some tgts)) (Some d) s)"
  defines "s2 \<equiv> update None (advance_clock dt s1)"
  shows "positions s1 = positions s" and "rotations s1 = rotations s"
    and "playing s1 = created_tweens s d (nextId s) items tgts"
    and "activeTweens s1 = map tw_id (playing s1)"
    and "\<forall>i<length items. positions s2 (items ! i) = position (tgts ! i) \<and>
           rotations s2 (items ! i) = rotation (tgts ! i)"
    and "playing s2 = []" and "activeTweens s2 = []"
    and "update time s2 = s2"
proof -
  let ?new = "created_tweens s d (nextId s) items tgts"
  have s1: "s1 = s\<lparr>activeTweens := map tw_id ?new, playing := ?new,
      nextId := nextId s + 2 * length items\<rparr>"
    unfolding s1_def by (simp add: transform_tracked_state [OF tr ne len] chosen_duration_def)
  show "positions s1 = positions s" "rotations s1 = rotations s" "playing s1 = ?new"
    "activeTweens s1 = map tw_id (playing s1)"
    by (simp_all add: s1)
  let ?a = "advance_clock dt s1"
  have s2: "s2 = update_tweens (clock s + dt) ?new ?a"
    by (simp add: s2_def update_def TWEEN_update_def advance_clock_def s1)
  have fin: "\<forall>tw\<in>set ?new. tw_startTime tw \<le> clock s + dt \<and> elapsed_portion (clock s + dt) tw = 1"
  proof
    fix tw assume "tw \<in> set ?new"
    then have "tw_startTime tw = clock s" "tw_duration tw = d"
      by (simp_all add: created_tweens_times)
    with dt dur show "tw_startTime tw \<le> clock s + dt \<and> elapsed_portion (clock s + dt) tw = 1"
      by (simp add: elapsed_portion_done)
  qed
  have dis: "distinct (map tw_object ?new)"
    using len dist by (rule distinct_created_objects)
  have len_new: "length ?new = 2 * length items"
    using len by (rule length_created_tweens)
  show "\<forall>i<length items. positions s2 (items ! i) = position (tgts ! i) \<and>
      rotations s2 (items ! i) = rotation (tgts ! i)"
  proof (intro allI impI)
    fix i assume i: "i < length items"
    let ?p = "?new ! (2 * i)" and ?r = "?new ! (2 * i + 1)"
    from i len_new have "?p \<in> set ?new" "?r \<in> set ?new"
      by simp_all
    then have "read_property (tw_object ?p) s2 = tw_valuesEnd ?p"
      "read_property (tw_object ?r) s2 = tw_valuesEnd ?r"
      unfolding s2 by (simp_all only: update_tweens_done_value [OF fin dis])
    then show "positions s2 (items ! i) = position (tgts ! i) \<and>
        rotations s2 (items ! i) = rotation (tgts ! i)"
      using created_tweens_nth [OF len i, of s d "nextId s"]
      by (simp add: read_property_def)
  qed
  have sets: "activeTweens s2 = fold remove1 (map tw_id ?new) (activeTweens ?a)"
    "playing s2 = filter (\<lambda>t. tw_id t \<notin> tw_id ` set ?new) (playing ?a)"
    unfolding s2 using update_tweens_done_sets [OF fin, of ?a] by simp_all
  show "playing s2 = []"
    by (simp add: sets s1 advance_clock_def)
  then show "update time s2 = s2"
    by (simp add: update_def TWEEN_update_def)
  show "activeTweens s2 = []"
    using fold_remove1_prefix [of "map tw_id ?new" "[]"]
    by (simp add: sets s1 advance_clock_def)
qed

lemma tracked_engine0: "tracked engine0"
  by (simp add: tracked_def engine0_def)

lemma tracked_log_line: "tracked (log_line l s) = tracked s"
  by (simp add: tracked_def log_line_def)

lemma tracked_advance_clock: "tracked (advance_clock dt s) = tracked s"
  by (simp add: tracked_def advance_clock_def)

lemma tracked_createTweensForObject:
  "tracked s \<Longrightarrow> tracked (createTweensForObject obj target d s)"
  by (auto simp: createTweensForObject_eq tracked_def list_all_iff)

lemma tracked_forEach_create:
  "tracked s \<Longrightarrow> tracked (forEach_create d objs tgts index s)"
proof (induction objs arbitrary: index s)
  case Nil
  then show ?case by simp
next
  case (Cons object rest)
  then show ?case
    by (auto simp: tracked_log_line tracked_createTweensForObject split: option.splits)
qed

lemma tracked_stopAllTweens: "tracked s \<Longrightarrow> tracked (stopAllTweens s)"
  by (simp add: stopAllTweens_eq tracked_filter) (simp add: tracked_def)

lemma tracked_transform:
  "tracked s \<Longrightarrow> tracked (snd (transform objects targets duration s))"
  by (cases objects; cases targets)
    (simp_all add: transform_def tracked_log_line tracked_forEach_create tracked_stopAllTweens)

lemma tracked_write_property: "tracked (write_property ob v s) = tracked s"
  by (simp add: tracked_def write_property_fields)

lemma tracked_tween_update: "tracked s \<Longrightarrow> tracked (tween_update time tw s)"
  by (auto simp: tween_update_def Let_def tracked_write_property write_property_fields
      tracked_def list_all_iff)

lemma tracked_update: "tracked s \<Longrightarrow> tracked (update time s)"
proof -
  have "tracked s \<Longrightarrow> tracked (update_tweens t tws s)" for t tws
    by (induction tws arbitrary: s) (simp_all add: tracked_tween_update)
  then show "tracked s \<Longrightarrow> tracked (update time s)"
    by (simp add: update_def TWEEN_update_def)
qed

lemma run_frames_idle:
  "playing s = [] \<Longrightarrow> run_frames dts s = s\<lparr>clock := clock s + sum_list dts\<rparr>"
proof (induction dts arbitrary: s)
  case Nil
  then show ?case by simp
next
  case (Cons dt dts)
  then show ?case
    by (simp add: update_def TWEEN_update_def advance_clock_def add.assoc)
qed

lemma tween_update_pending:
  assumes "time < tw_startTime tw \<or> elapsed_portion time tw \<noteq> 1"
  shows "playing (tween_update time tw s) = playing s \<and>
         activeTweens (tween_update time tw s) = activeTweens s \<and>
         clock (tween_update time tw s) = clock s"
  using assms by (auto simp: tween_update_def Let_def write_property_fields)

lemma update_tweens_pending:
  assumes "\<forall>tw\<in>set tws. time < tw_startTime tw \<or> elapsed_portion time tw \<noteq> 1"
  shows "playing (update_tweens time tws s) = playing s \<and>
         activeTweens (update_tweens time tws s) = activeTweens s \<and>
         clock (update_tweens time tws s) = clock s"
  using assms
proof (induction tws arbitrary: s)
  case Nil
  then show ?case by simp
next
  case (Cons a tws)
  then show ?case
    by (simp add: tween_update_pending)
qed

lemma elapsed_portion_pending:
  assumes "0 < tw_duration tw" and "time < tw_startTime tw + tw_duration tw"
  shows "elapsed_portion time tw \<noteq> 1"
proof -
  from assms have "(time - tw_startTime tw) / tw_duration tw < 1"
    by (simp add: divide_less_eq)
  with assms(1) show ?thesis
    by (simp add: elapsed_portion_def Let_def)
qed

lemma frame_done:
  assumes pl: "playing s = new" and ac: "activeTweens s = map tw_id new"
    and fin: "\<forall>tw\<in>set new. tw_startTime tw \<le> clock s + dt \<and> elapsed_portion (clock s + dt) tw = 1"
    and dis: "distinct (map tw_object new)"
  defines "s' \<equiv> update None (advance_clock dt s)"
  shows "\<forall>tw\<in>set new. read_property (tw_object tw) s' = tw_valuesEnd tw"
    and "playing s' = []" and "activeTweens s' = []"
proof -
  let ?a = "advance_clock dt s"
  have s': "s' = update_tweens (clock s + dt) new ?a"
    by (simp add: s'_def update_def TWEEN_update_def advance_clock_def pl)
  show "\<forall>tw\<in>set new. read_property (tw_object tw) s' = tw_valuesEnd tw"
    unfolding s' using update_tweens_done_value [OF fin dis] by blast
  have sets: "activeTweens s' = fold remove1 (map tw_id new) (activeTweens ?a)"
    "playing s' = filter (\<lambda>t. tw_id t \<notin> tw_id ` set new) (playing ?a)"
    unfolding s' using update_tweens_done_sets [OF fin, of ?a] by simp_all
  show "playing s' = []"
    by (simp add: sets pl advance_clock_def)
  show "activeTweens s' = []"
    using fold_remove1_prefix [of "map tw_id new" "[]"]
    by (simp add: sets ac advance_clock_def)
qed

lemma read_property_clock: "read_property ob (s\<lparr>clock := c\<rparr>) = read_property ob s"
  by (cases ob) (simp_all add: read_property_def)

lemma frames_complete:
  assumes "playing s = new" and "activeTweens s = map tw_id new"
    and "\<forall>tw\<in>set new. tw_startTime tw = T0 \<and> tw_duration tw = d"
    and "distinct (map tw_object new)"
    and "T0 \<le> clock s" and "list_all (\<lambda>dt. 0 \<le> dt) dts" and "dts \<noteq> []"
    and "0 \<le> d" and "T0 + d \<le> clock s + sum_list dts"
  shows "(\<forall>tw\<in>set new. read_property (tw_object tw) (run_frames dts s) = tw_valuesEnd tw) \<and>
         playing (run_frames dts s) = [] \<and> activeTweens (run_frames dts s) = []"
  using assms
proof (induction dts arbitrary: s)
  case Nil
  then show ?case by simp
next
  case (Cons dt dts)
  let ?s' = "update None (advance_clock dt s)"
  from Cons.prems have dt: "0 \<le> dt" and rest: "list_all (\<lambda>dt. 0 \<le> dt) dts"
    by simp_all
  show ?case
  proof (cases "d = 0 \<or> T0 + d \<le> clock s + dt")
    case True
    have fin: "\<forall>tw\<in>set new. tw_startTime tw \<le> clock s + dt \<and>
        elapsed_portion (clock s + dt) tw = 1"
    proof
      fix tw assume "tw \<in> set new"
      with Cons.prems have tw: "tw_startTime tw = T0" "tw_duration tw = d"
        by simp_all
      have "tw_duration tw = 0 \<or>
          (0 < tw_duration tw \<and> tw_startTime tw + tw_duration tw \<le> clock s + dt)"
        using True Cons.prems(8) by (auto simp: tw)
      then have "elapsed_portion (clock s + dt) tw = 1"
        by (rule elapsed_portion_done)
      moreover have "tw_startTime tw \<le> clock s + dt"
        using Cons.prems(5) dt by (simp add: tw)
      ultimately show "tw_startTime tw \<le> clock s + dt \<and> elapsed_portion (clock s + dt) tw = 1"
        by simp
    qed
    note d = frame_done [OF Cons.prems(1,2) fin Cons.prems(4)]
    have "run_frames (dt # dts) s = ?s'\<lparr>clock := clock ?s' + sum_list dts\<rparr>"
      using d(2) by (simp add: run_frames_idle)
    with d show ?thesis
      by (simp add: read_property_clock)
  next
    case False
    then have d: "0 < d" and before: "clock s + dt < T0 + d"
      using Cons.prems(8) by auto
    have pend: "\<forall>tw\<in>set new. clock s + dt < tw_startTime tw \<or>
        elapsed_portion (clock s + dt) tw \<noteq> 1"
    proof
      fix tw assume "tw \<in> set new"
      with Cons.prems have tw: "tw_startTime tw = T0" "tw_duration tw = d"
        by simp_all
      have "elapsed_portion (clock s + dt) tw \<noteq> 1"
        using d before by (intro elapsed_portion_pending) (simp_all add: tw)
      then show "clock s + dt < tw_startTime tw \<or> elapsed_portion (clock s + dt) tw \<noteq> 1"
        by simp
    qed
    have s': "playing ?s' = new" "activeTweens ?s' = map tw_id new" "clock ?s' = clock s + dt"
      using update_tweens_pending [OF pend, of "advance_clock dt s"] Cons.prems(1,2)
      by (simp_all add: update_def TWEEN_update_def advance_clock_def)
    have "dts \<noteq> []"
      using before Cons.prems(9) by auto
    moreover have "T0 + d \<le> clock ?s' + sum_list dts"
      using Cons.prems(9) by (simp add: s' add.assoc)
    moreover have "T0 \<le> clock ?s'"
      using Cons.prems(5) dt by (simp add: s')
    ultimately have "(\<forall>tw\<in>set new. read_property (tw_object tw) (run_frames dts ?s') = tw_valuesEnd tw) \<and>
         playing (run_frames dts ?s') = [] \<and> activeTweens (run_frames dts ?s') = []"
      using s'(1,2) Cons.prems(3,4,8) rest by (intro Cons.IH) simp_all
    then show ?thesis
      by simp
  qed
qed

lemma interpolate_zero: "interpolate a b 0 = a"
  by (cases a) (simp add: interpolate_def)

lemma Cubic_InOut_range:
  assumes "0 \<le> t" and "t \<le> 1"
  shows "0 \<le> Cubic_InOut t \<and> Cubic_InOut t \<le> 1"
proof (cases "t * 2 < 1")
  case True
  define u where "u = t * 2"
  have u: "0 \<le> u" "u < 1"
    using assms True by (simp_all add: u_def)
  then have "0 \<le> u * u" "u * u \<le> 1"
    by (simp_all add: mult_le_one)
  with u have "0 \<le> u * u * u" "u * u * u \<le> 1"
    by (simp_all add: mult_le_one)
  then show ?thesis
    using True by (simp add: Cubic_InOut_def u_def)
next
  case False
  define w where "w = 2 - t * 2"
  have w: "0 \<le> w" "w \<le> 1"
    using assms False by (simp_all add: w_def)
  then have "0 \<le> w * w" "w * w \<le> 1"
    by (simp_all add: mult_le_one)
  with w have c: "0 \<le> w * w * w" "w * w * w \<le> 1"
    by (simp_all add: mult_le_one)
  have "(t * 2 - 2) * (t * 2 - 2) * (t * 2 - 2) = - (w * w * w)"
    by (simp add: w_def algebra_simps)
  then have "Cubic_InOut t = 0.5 * (2 - w * w * w)"
    using False by (simp add: Cubic_InOut_def)
  with c show ?thesis
    by simp
qed

lemma sum_list_nonneg_frames: "list_all (\<lambda>dt. 0 \<le> dt) dts \<Longrightarrow> 0 \<le> sum_list (dts :: real list)"
  by (induction dts) simp_all

lemma tween_update_value:
  assumes "tw_startTime tw \<le> time"
  shows "read_property (tw_object tw) (tween_update time tw s) =
     interpolate (tw_valuesStart tw) (tw_valuesEnd tw) (Cubic_InOut (elapsed_portion time tw))"
  using assms by (simp add: tween_update_def Let_def read_property_more read_write_same)

lemma update_tweens_value:
  assumes "\<forall>tw\<in>set tws. tw_startTime tw \<le> time"
    and "distinct (map tw_object tws)" and "tw \<in> set tws"
  shows "read_property (tw_object tw) (update_tweens time tws s) =
     interpolate (tw_valuesStart tw) (tw_valuesEnd tw) (Cubic_InOut (elapsed_portion time tw))"
  using assms
proof (induction tws arbitrary: s)
  case Nil
  then show ?case by simp
next
  case (Cons a tws)
  show ?case
  proof (cases "tw \<in> set tws")
    case True
    with Cons show ?thesis by simp
  next
    case False
    with Cons.prems have eq: "tw = a" and nin: "tw_object a \<notin> tw_object ` set tws"
      and st: "tw_startTime a \<le> time"
      by auto
    have "read_property (tw_object a) (update_tweens time tws (tween_update time a s)) =
        read_property (tw_object a) (tween_update time a s)"
      using nin by (rule update_tweens_frame)
    then show ?thesis
      by (simp add: eq tween_update_value [OF st])
  qed
qed

lemma playing_tween_update: "set (playing (tween_update time tw s)) \<subseteq> set (playing s)"
  by (auto simp: tween_update_def Let_def write_property_fields)

lemma run_frames_progress:
  assumes "playing s = new" and "activeTweens s = map tw_id new"
    and "\<forall>tw\<in>set new. tw_startTime tw = T0 \<and> tw_duration tw = d"
    and "distinct (map tw_object new)"
    and "T0 \<le> clock s" and "list_all (\<lambda>dt. 0 \<le> dt) dts" and "dts \<noteq> []" and "0 < d"
    and "tw \<in> set new"
  shows "read_property (tw_object tw) (run_frames dts s) =
     interpolate (tw_valuesStart tw) (tw_valuesEnd tw)
       (Cubic_InOut (min 1 ((clock s + sum_list dts - T0) / d)))"
  using assms(1,2,5,6,7)
proof (induction dts arbitrary: s)
  case Nil
  then show ?case by simp
next
  case (Cons dt dts)
  let ?s' = "update None (advance_clock dt s)"
  note times = assms(3) and dis = assms(4) and d = assms(8) and tw = assms(9)
  from Cons.prems have dt: "0 \<le> dt" and rest: "list_all (\<lambda>dt. 0 \<le> dt) dts"
    by simp_all
  have rest0: "0 \<le> sum_list dts"
    using rest by (rule sum_list_nonneg_frames)
  have twt: "tw_startTime tw = T0" "tw_duration tw = d"
    using times tw by simp_all
  show ?case
  proof (cases "T0 + d \<le> clock s + dt")
    case True
    have fin: "\<forall>tw\<in>set new. tw_startTime tw \<le> clock s + dt \<and>
        elapsed_portion (clock s + dt) tw = 1"
    proof
      fix a assume "a \<in> set new"
      with times have a: "tw_startTime a = T0" "tw_duration a = d"
        by simp_all
      have "tw_duration a = 0 \<or>
          (0 < tw_duration a \<and> tw_startTime a + tw_duration a \<le> clock s + dt)"
        using True d by (simp add: a)
      then have "elapsed_portion (clock s + dt) a = 1"
        by (rule elapsed_portion_done)
      moreover have "tw_startTime a \<le> clock s + dt"
        using Cons.prems(3) dt by (simp add: a)
      ultimately show "tw_startTime a \<le> clock s + dt \<and> elapsed_portion (clock s + dt) a = 1"
        by simp
    qed
    note fd = frame_done [OF Cons.prems(1,2) fin dis]
    have "run_frames (dt # dts) s = ?s'\<lparr>clock := clock ?s' + sum_list dts\<rparr>"
      using fd(2) by (simp add: run_frames_idle)
    then have "read_property (tw_object tw) (run_frames (dt # dts) s) = tw_valuesEnd tw"
      using fd(1) tw by (simp add: read_property_clock)
    moreover have "1 \<le> (clock s + sum_list (dt # dts) - T0) / d"
      using True rest0 d by (simp add: le_divide_eq)
    ultimately show ?thesis
      by (simp add: min_absorb1 Cubic_InOut_one interpolate_one)
  next
    case False
    then have before: "clock s + dt < T0 + d"
      by simp
    have st: "\<forall>a\<in>set new. tw_startTime a \<le> clock s + dt"
      using times Cons.prems(3) dt by simp
    have pend: "\<forall>a\<in>set new. clock s + dt < tw_startTime a \<or>
        elapsed_portion (clock s + dt) a \<noteq> 1"
    proof
      fix a assume "a \<in> set new"
      with times have a: "tw_startTime a = T0" "tw_duration a = d"
        by simp_all
      have "elapsed_portion (clock s + dt) a \<noteq> 1"
        using d before by (intro elapsed_portion_pending) (simp_all add: a)
      then show "clock s + dt < tw_startTime a \<or> elapsed_portion (clock s + dt) a \<noteq> 1"
        by simp
    qed
    have s': "playing ?s' = new" "activeTweens ?s' = map tw_id new" "clock ?s' = clock s + dt"
      using update_tweens_pending [OF pend, of "advance_clock dt s"] Cons.prems(1,2)
      by (simp_all add: update_def TWEEN_update_def advance_clock_def)
    show ?thesis
    proof (cases "dts = []")
      case True
      have "?s' = update_tweens (clock s + dt) new (advance_clock dt s)"
        by (simp add: update_def TWEEN_update_def advance_clock_def Cons.prems(1))
      then have "read_property (tw_object tw) ?s' =
          interpolate (tw_valuesStart tw) (tw_valuesEnd tw)
            (Cubic_InOut (elapsed_portion (clock s + dt) tw))"
        using update_tweens_value [OF st dis tw] by simp
      moreover have "(clock s + dt - T0) / d < 1"
        using before d by (simp add: divide_less_eq)
      then have "elapsed_portion (clock s + dt) tw = min 1 ((clock s + dt - T0) / d)"
        using d by (simp add: elapsed_portion_def Let_def twt)
      ultimately show ?thesis
        using True by simp
    next
      case False
      have "T0 \<le> clock ?s'"
        using Cons.prems(3) dt by (simp add: s')
      with s'(1,2) rest False
      have "read_property (tw_object tw) (run_frames dts ?s') =
          interpolate (tw_valuesStart tw) (tw_valuesEnd tw)
            (Cubic_InOut (min 1 ((clock ?s' + sum_list dts - T0) / d)))"
        by (intro Cons.IH) simp_all
      then show ?thesis
        by (simp add: s' add.assoc)
    qed
  qed
qed

lemma eased_progress_range:
  assumes "list_all (\<lambda>dt. 0 \<le> dt) frames" and "0 < d"
  shows "0 \<le> eased_progress d frames \<and> eased_progress d frames \<le> 1"
proof (cases "frames = []")
  case True
  then show ?thesis by (simp add: eased_progress_def)
next
  case False
  have "0 \<le> sum_list frames / d"
    using sum_list_nonneg_frames [OF assms(1)] assms(2) by simp
  then have "0 \<le> min 1 (sum_list frames / d)" "min 1 (sum_list frames / d) \<le> 1"
    by simp_all
  then show ?thesis
    using False by (simp add: eased_progress_def Cubic_InOut_range)
qed

lemma poses_after_transform:
  assumes tr: "tracked t" and ne: "items \<noteq> []" and len: "length items = length tgts"
    and dist: "distinct items" and nonneg: "list_all (\<lambda>dt. 0 \<le> dt) frames" and d: "0 < d"
    and i: "i < length items"
  defines "s2 \<equiv> snd (transform (ArrayOf (map Some items)) (ArrayOf (map Some tgts)) (Some d) t)"
  shows "positions (run_frames frames s2) (items ! i) =
           interpolate (positions t (items ! i)) (position (tgts ! i)) (eased_progress d frames)"
    and "rotations (run_frames frames s2) (items ! i) =
           interpolate (rotations t (items ! i)) (rotation (tgts ! i)) (eased_progress d frames)"
proof -
  let ?new = "created_tweens t d (nextId t) items tgts"
  have s2: "s2 = t\<lparr>activeTweens := map tw_id ?new, playing := ?new,
      nextId := nextId t + 2 * length items\<rparr>"
    unfolding s2_def by (simp add: transform_tracked_state [OF tr ne len] chosen_duration_def)
  let ?p = "?new ! (2 * i)" and ?r = "?new ! (2 * i + 1)"
  note nth = created_tweens_nth [OF len i, of t d "nextId t"]
  have len_new: "length ?new = 2 * length items"
    using len by (rule length_created_tweens)
  with i have mem: "?p \<in> set ?new" "?r \<in> set ?new"
    by simp_all
  have both: "positions (run_frames frames s2) (items ! i) =
           interpolate (positions t (items ! i)) (position (tgts ! i)) (eased_progress d frames) \<and>
         rotations (run_frames frames s2) (items ! i) =
           interpolate (rotations t (items ! i)) (rotation (tgts ! i)) (eased_progress d frames)"
  proof (cases "frames = []")
    case True
    then show ?thesis
      by (simp add: eased_progress_def interpolate_zero s2)
  next
    case False
    have times: "\<forall>tw\<in>set ?new. tw_startTime tw = clock t \<and> tw_duration tw = d"
      by (simp add: created_tweens_times)
    have dis: "distinct (map tw_object ?new)"
      using len dist by (rule distinct_created_objects)
    have pl: "playing s2 = ?new" and ac: "activeTweens s2 = map tw_id ?new"
      and ck: "clock t \<le> clock s2"
      by (simp_all add: s2)
    have "read_property (tw_object ?p) (run_frames frames s2) =
        interpolate (tw_valuesStart ?p) (tw_valuesEnd ?p)
          (Cubic_InOut (min 1 ((clock s2 + sum_list frames - clock t) / d)))"
      using pl ac times dis ck nonneg False d mem(1) by (rule run_frames_progress)
    moreover have "read_property (tw_object ?r) (run_frames frames s2) =
        interpolate (tw_valuesStart ?r) (tw_valuesEnd ?r)
          (Cubic_InOut (min 1 ((clock s2 + sum_list frames - clock t) / d)))"
      using pl ac times dis ck nonneg False d mem(2) by (rule run_frames_progress)
    moreover have "clock s2 = clock t"
      by (simp add: s2)
    ultimately show ?thesis
      using nth False by (simp add: read_property_def eased_progress_def)
  qed
  then show "positions (run_frames frames s2) (items ! i) =
           interpolate (positions t (items ! i)) (position (tgts ! i)) (eased_progress d frames)"
    and "rotations (run_frames frames s2) (items ! i) =
           interpolate (rotations t (items ! i)) (rotation (tgts ! i)) (eased_progress d frames)"
    by simp_all
qed

lemma eased_progress_done:
  assumes "0 < d" and "d \<le> sum_list frames"
  shows "eased_progress d frames = 1"
proof -
  from assms have "frames \<noteq> []"
    by auto
  moreover from assms have "1 \<le> sum_list frames / d"
    by (simp add: le_divide_eq)
  ultimately show ?thesis
    by (simp add: eased_progress_def min_absorb1 Cubic_InOut_one)
qed

lemma tweens_gone_after_transform:
  assumes tr: "tracked t" and ne: "items \<noteq> []" and len: "length items = length tgts"
    and dist: "distinct items" and nonneg: "list_all (\<lambda>dt. 0 \<le> dt) frames" and d: "0 < d"
    and total: "d \<le> sum_list frames"
  defines "s2 \<equiv> snd (transform (ArrayOf (map Some items)) (ArrayOf (map Some tgts)) (Some d) t)"
  shows "playing (run_frames frames s2) = [] \<and> activeTweens (run_frames frames s2) = []"
proof -
  let ?new = "created_tweens t d (nextId t) items tgts"
  have s2: "s2 = t\<lparr>activeTweens := map tw_id ?new, playing := ?new,
      nextId := nextId t + 2 * length items\<rparr>"
    unfolding s2_def by (simp add: transform_tracked_state [OF tr ne len] chosen_duration_def)
  have times: "\<forall>tw\<in>set ?new. tw_startTime tw = clock t \<and> tw_duration tw = d"
    by (simp add: created_tweens_times)
  have dis: "distinct (map tw_object ?new)"
    using len dist by (rule distinct_created_objects)
  have "frames \<noteq> []"
    using d total by auto
  moreover have "clock t + d \<le> clock s2 + sum_list frames" "clock t \<le> clock s2" "0 \<le> d"
    using total d by (simp_all add: s2)
  moreover have "playing s2 = ?new" "activeTweens s2 = map tw_id ?new"
    by (simp_all add: s2)
  ultimately show ?thesis
    using times dis nonneg frames_complete [of s2 ?new "clock t" d frames] by simp
qed

section \<open>The claims\<close>

text \<open>
  C1: for every \<open>count \<ge> 0\<close>, \<open>generateLayoutTargets\<close> returns, and each of the five layouts
  it returns (table, sphere, helix, grid, tetra) has exactly \<open>count\<close> targets; the numbers
  of items the tetra generator gives to its four faces add up to \<open>count\<close>.
\<close>

theorem layout_lengths:
  assumes "0 \<le> count"
  shows "\<exists>r. generateLayoutTargets lookAt count = Returns r \<and>
           (\<forall>name. length (layout_of r name) = nat count) \<and>
           (\<Sum>f\<leftarrow>[0, 1, 2, 3]. itemsOnFace_of (floor_div count (int (length faces)))
              (js_rem count (int (length faces))) f) = count"
proof -
  let ?r = "\<lparr>table = generateTableLayout count,
              sphere = generateSphereLayout lookAt count,
              helix = generateHelixLayout lookAt count,
              grid = generateGridLayout count,
              tetra = generateTetraLayout lookAt count\<rparr>"
  have "length (layout_of ?r name) = nat count" for name
    using assms
    by (cases name)
      (simp_all add: length_generateTableLayout length_generateSphereLayout
        length_generateHelixLayout length_generateGridLayout length_generateTetraLayout)
  moreover have "int (length faces) = 4"
    by (simp add: faces_def)
  ultimately show ?thesis
    using itemsOnFace_sum [OF assms] by (simp add: generateLayoutTargets_def)
qed

theorem layout_lengths_witness:
  "\<exists>r. generateLayoutTargets no_turn 7 = Returns r \<and>
     (\<forall>name. length (layout_of r name) = 7) \<and>
     (\<Sum>f\<leftarrow>[0, 1, 2, 3]. itemsOnFace_of (floor_div 7 (int (length faces)))
        (js_rem 7 (int (length faces))) f) = 7"
  using layout_lengths [of 7 no_turn] by simp

text \<open>
  C2: in a state where every started tween is tracked, let a transition of distinct items
  toward the targets B be begun and then, after any time but with no update in between, a
  transition of the same items toward the targets C with duration 500. The superseded
  transition is discarded, not completed: neither call writes a pose, and after the second
  call the started tweens are exactly those toward C, starting from the poses the items
  have. At every later frame each item is at the eased interpolation between that pose
  and its C target, the same pose as in the run in which the transition toward B was never
  begun; so it is not at its B target at any frame, unless that target happens to lie on
  this path. Once the frames add up to at least 500 every item is exactly at its C
  target, and no tween is left.
\<close>

theorem superseded_transition_discarded:
  assumes tr: "tracked s" and ne: "items \<noteq> []" and lenB: "length items = length targetsB"
    and lenC: "length items = length targetsC" and dist: "distinct items"
    and gap: "0 \<le> gap" and nonneg: "list_all (\<lambda>dt. 0 \<le> dt) frames"
  shows "let s1 = snd (transform (ArrayOf (map Some items)) (ArrayOf (map Some targetsB)) durationB s);
             s2 = snd (transform (ArrayOf (map Some items)) (ArrayOf (map Some targetsC)) (Some 500)
                    (advance_clock gap s1));
             s3 = run_frames frames s2;
             alone = run_frames frames
                       (snd (transform (ArrayOf (map Some items)) (ArrayOf (map Some targetsC))
                          (Some 500) (advance_clock gap s)));
             progress = eased_progress 500 frames
         in positions s2 = positions s \<and> rotations s2 = rotations s \<and>
            playing s2 =
              created_tweens (advance_clock gap s) 500 (nextId s + 2 * length items) items targetsC \<and>
            activeTweens s2 = map tw_id (playing s2) \<and>
            (\<forall>i<length items.
               positions s3 (items ! i) =
                 interpolate (positions s (items ! i)) (position (targetsC ! i)) progress \<and>
               rotations s3 (items ! i) =
                 interpolate (rotations s (items ! i)) (rotation (targetsC ! i)) progress \<and>
               positions s3 (items ! i) = positions alone (items ! i) \<and>
               rotations s3 (items ! i) = rotations alone (items ! i) \<and>
               ((\<forall>v. 0 \<le> v \<and> v \<le> 1 \<longrightarrow>
                    interpolate (positions s (items ! i)) (position (targetsC ! i)) v \<noteq>
                      position (targetsB ! i) \<or>
                    interpolate (rotations s (items ! i)) (rotation (targetsC ! i)) v \<noteq>
                      rotation (targetsB ! i)) \<longrightarrow>
                positions s3 (items ! i) \<noteq> position (targetsB ! i) \<or>
                rotations s3 (items ! i) \<noteq> rotation (targetsB ! i))) \<and>
            (500 \<le> sum_list frames \<longrightarrow>
               (\<forall>i<length items. positions s3 (items ! i) = position (targetsC ! i) \<and>
                  rotations s3 (items ! i) = rotation (targetsC ! i)) \<and>
               playing s3 = [] \<and> activeTweens s3 = [])"
proof -
  define s1 where
    "s1 = snd (transform (ArrayOf (map Some items)) (ArrayOf (map Some targetsB)) durationB s)"
  define t1 where "t1 = advance_clock gap s1"
  define t0 where "t0 = advance_clock gap s"
  define s2 where
    "s2 = snd (transform (ArrayOf (map Some items)) (ArrayOf (map Some targetsC)) (Some 500) t1)"
  define alone where
    "alone = run_frames frames
       (snd (transform (ArrayOf (map Some items)) (ArrayOf (map Some targetsC)) (Some 500) t0))"
  define progress where "progress = eased_progress 500 frames"
  have s1: "positions s1 = positions s" "rotations s1 = rotations s" "clock s1 = clock s"
    "nextId s1 = nextId s + 2 * length items"
    by (simp_all add: s1_def transform_tracked_state [OF tr ne lenB])
  have t1: "positions t1 = positions s" "rotations t1 = rotations s" "clock t1 = clock t0"
    "nextId t1 = nextId s + 2 * length items"
    and t0: "positions t0 = positions s" "rotations t0 = rotations s"
    by (simp_all add: t1_def t0_def advance_clock_def s1)
  have tr1: "tracked t1"
    unfolding t1_def s1_def using tr ne lenB
    by (simp add: tracked_advance_clock tracked_after_transform)
  have tr0: "tracked t0"
    unfolding t0_def using tr by (simp add: tracked_advance_clock)
  have cg: "created_tweens t1 500 n items targetsC = created_tweens t0 500 n items targetsC" for n
    using t1 t0 by (intro created_tweens_cong) simp_all
  have s2: "positions s2 = positions s" "rotations s2 = rotations s"
    "playing s2 = created_tweens t0 500 (nextId s + 2 * length items) items targetsC"
    "activeTweens s2 = map tw_id (playing s2)"
    by (simp_all add: s2_def transform_tracked_state [OF tr1 ne lenC] chosen_duration_def t1 cg)
  have d: "(0::real) < 500"
    by simp
  have each: "positions (run_frames frames s2) (items ! i) =
        interpolate (positions s (items ! i)) (position (targetsC ! i)) progress \<and>
      rotations (run_frames frames s2) (items ! i) =
        interpolate (rotations s (items ! i)) (rotation (targetsC ! i)) progress \<and>
      positions (run_frames frames s2) (items ! i) = positions alone (items ! i) \<and>
      rotations (run_frames frames s2) (items ! i) = rotations alone (items ! i)"
    if i: "i < length items" for i
    using poses_after_transform [OF tr1 ne lenC dist nonneg d i]
      poses_after_transform [OF tr0 ne lenC dist nonneg d i]
    by (simp add: s2_def alone_def progress_def t1 t0)
  have range: "0 \<le> progress \<and> progress \<le> 1"
    unfolding progress_def using nonneg d by (rule eased_progress_range)
  have never: "positions (run_frames frames s2) (items ! i) \<noteq> position (targetsB ! i) \<or>
      rotations (run_frames frames s2) (items ! i) \<noteq> rotation (targetsB ! i)"
    if i: "i < length items"
      and off: "\<forall>v. 0 \<le> v \<and> v \<le> 1 \<longrightarrow>
        interpolate (positions s (items ! i)) (position (targetsC ! i)) v \<noteq> position (targetsB ! i) \<or>
        interpolate (rotations s (items ! i)) (rotation (targetsC ! i)) v \<noteq> rotation (targetsB ! i)"
    for i
    using each [OF i] off range by auto
  have final: "(\<forall>i<length items. positions (run_frames frames s2) (items ! i) = position (targetsC ! i) \<and>
        rotations (run_frames frames s2) (items ! i) = rotation (targetsC ! i)) \<and>
      playing (run_frames frames s2) = [] \<and> activeTweens (run_frames frames s2) = []"
    if total: "500 \<le> sum_list frames"
    using each tweens_gone_after_transform [OF tr1 ne lenC dist nonneg d total]
    by (simp add: s2_def progress_def eased_progress_done [OF d total] interpolate_one)
  have item: "\<forall>i<length items.
      positions (run_frames frames s2) (items ! i) =
        interpolate (positions s (items ! i)) (position (targetsC ! i)) progress \<and>
      rotations (run_frames frames s2) (items ! i) =
        interpolate (rotations s (items ! i)) (rotation (targetsC ! i)) progress \<and>
      positions (run_frames frames s2) (items ! i) = positions alone (items ! i) \<and>
      rotations (run_frames frames s2) (items ! i) = rotations alone (items ! i) \<and>
      ((\<forall>v. 0 \<le> v \<and> v \<le> 1 \<longrightarrow>
          interpolate (positions s (items ! i)) (position (targetsC ! i)) v \<noteq>
            position (targetsB ! i) \<or>
          interpolate (rotations s (items ! i)) (rotation (targetsC ! i)) v \<noteq>
            rotation (targetsB ! i)) \<longrightarrow>
       positions (run_frames frames s2) (items ! i) \<noteq> position (targetsB ! i) \<or>
       rotations (run_frames frames s2) (items ! i) \<noteq> rotation (targetsB ! i))"
    using each never by blast
  have fin: "500 \<le> sum_list frames \<longrightarrow>
      (\<forall>i<length items. positions (run_frames frames s2) (items ! i) = position (targetsC ! i) \<and>
        rotations (run_frames frames s2) (items ! i) = rotation (targetsC ! i)) \<and>
      playing (run_frames frames s2) = [] \<and> activeTweens (run_frames frames s2) = []"
    using final by blast
  show ?thesis
    unfolding Let_def s1_def [symmetric] t1_def [symmetric] t0_def [symmetric] s2_def [symmetric]
      alone_def [symmetric] progress_def [symmetric]
    using s2 item fin by blast
qed

theorem superseded_transition_discarded_witness:
  "positions (run_frames [500, 600]
     (snd (transform (ArrayOf [Some 0]) (ArrayOf [Some target_C]) (Some 500)
        (advance_clock 100
           (snd (transform (ArrayOf [Some 0]) (ArrayOf [Some target_aside]) (Some 1000) engine0))))))
     0 = position target_C \<and>
   playing (run_frames [500, 600]
     (snd (transform (ArrayOf [Some 0]) (ArrayOf [Some target_C]) (Some 500)
        (advance_clock 100
           (snd (transform (ArrayOf [Some 0]) (ArrayOf [Some target_aside]) (Some 1000) engine0))))))
     = [] \<and>
   positions (run_frames [500, 600]
     (snd (transform (ArrayOf [Some 0]) (ArrayOf [Some target_C]) (Some 500)
        (advance_clock 100
           (snd (transform (ArrayOf [Some 0]) (ArrayOf [Some target_aside]) (Some 1000) engine0))))))
     0 \<noteq> position target_aside"
proof -
  define R where
    "R = run_frames [500, 600]
       (snd (transform (ArrayOf (map Some [0])) (ArrayOf (map Some [target_C])) (Some 500)
          (advance_clock 100
             (snd (transform (ArrayOf (map Some [0])) (ArrayOf (map Some [target_aside]))
                (Some 1000) engine0)))))"
  have p: "[0::nat] \<noteq> []" "length [0::nat] = length [target_aside]"
    "length [0::nat] = length [target_C]" "distinct [0::nat]" "(0::real) \<le> 100"
    "list_all (\<lambda>dt. 0 \<le> dt) [500, 600::real]"
    by simp_all
  note th = superseded_transition_discarded [OF tracked_engine0 p, of "Some 1000",
      unfolded Let_def, folded R_def]
  have "(500::real) \<le> sum_list [500, 600]"
    by simp
  with th have "\<forall>i<length [0::nat]. positions R ([0] ! i) = position ([target_C] ! i) \<and>
      rotations R ([0] ! i) = rotation ([target_C] ! i)" and "playing R = []"
    by blast+
  then have "positions R 0 = position target_C" and "playing R = []"
    by simp_all
  then show ?thesis
    by (simp add: R_def target_C_def target_aside_def del: run_frames.simps)
qed

text \<open>
  C3, as the engine behaves: in a state where every started tween is tracked, \<open>transform\<close>
  with non-empty arrays of equal length, distinct items and duration 0 returns without
  writing any pose, having started a position tween and a rotation tween per item; the
  first update after it sets the position and the rotation of every item exactly to those
  of its target, with no interpolated value in between, and leaves no tween; every further
  update changes nothing.
\<close>

theorem zero_duration_snaps_on_first_update:
  assumes "tracked s" and "items \<noteq> []" and "length items = length tgts" and "distinct items"
    and "0 \<le> dt"
  shows "let r = transform (ArrayOf (map Some items)) (ArrayOf (map Some tgts)) (Some 0) s;
             s2 = update None (advance_clock dt (snd r))
         in fst r = Returns () \<and>
            positions (snd r) = positions s \<and> rotations (snd r) = rotations s \<and>
            length (playing (snd r)) = 2 * length items \<and>
            (\<forall>i<length items. positions s2 (items ! i) = position (tgts ! i) \<and>
               rotations s2 (items ! i) = rotation (tgts ! i)) \<and>
            playing s2 = [] \<and> activeTweens s2 = [] \<and> update time s2 = s2"
proof -
  have dur: "(0::real) = 0 \<or> ((0::real) < 0 \<and> 0 \<le> dt)"
    by simp
  note c = transition_completes [OF assms dur]
  show ?thesis
    unfolding Let_def
    using c(1,2,5,6,7) c(8) [of time] c(3)
    by (simp add: transform_eq_opt [OF assms(2,3)] length_created_tweens [OF assms(3)])
qed

theorem zero_duration_snaps_on_first_update_witness:
  "positions (snd (transform (ArrayOf [Some 0]) (ArrayOf [Some target_C]) (Some 0) engine0)) 0 =
     Vector3 0 0 0 \<and>
   positions (update None (advance_clock 0
     (snd (transform (ArrayOf [Some 0]) (ArrayOf [Some target_C]) (Some 0) engine0)))) 0 =
     Vector3 100 0 0"
  using zero_duration_snaps_on_first_update [of engine0 "[0]" "[target_C]" 0] tracked_engine0
  by (simp add: Let_def engine0_def target_C_def)

text \<open>
  The call itself does not move the item: after \<open>transform\<close> with duration 0 the item is
  still at the origin, not at its target.
\<close>

theorem zero_duration_counterexample:
  "positions (snd (transform (ArrayOf [Some 0]) (ArrayOf [Some target_C]) (Some 0) engine0)) 0 \<noteq>
     position target_C"
proof -
  have "[0::nat] \<noteq> []" "length [0::nat] = length [target_C]"
    by simp_all
  from transform_eq_opt [OF this, of "Some 0" engine0] show ?thesis
    by (simp add: engine0_def target_C_def)
qed

text \<open>
  C4, as the code behaves: when \<open>objects\<close> and \<open>targets\<close> have different lengths,
  \<open>transform\<close> returns normally; its only effect is one console warning (the one for no
  objects when \<open>objects\<close> is empty, the mismatch warning otherwise), so no position, no
  rotation and no tween is changed.
\<close>

theorem mismatched_lengths_warn_only:
  assumes "length objs \<noteq> length tgts"
  shows "transform (ArrayOf objs) (ArrayOf tgts) duration s =
           (Returns (),
            s\<lparr>console := console s @
                 [if objs = [] then WarnNoObjects else WarnMismatch (length objs) (length tgts)]\<rparr>)"
  using assms by (simp add: transform_mismatch log_line_def)

theorem mismatched_lengths_warn_only_witness:
  "transform (ArrayOf [Some 0, Some 1]) (ArrayOf [Some target_B]) (Some 1000) engine0 =
     (Returns (), engine0\<lparr>console := [WarnMismatch 2 1]\<rparr>)"
  using mismatched_lengths_warn_only [of "[Some 0, Some 1]" "[Some target_B]" "Some 1000" engine0]
  by (simp add: engine0_def)

text \<open>No error reaches the caller: the call with two objects and one target returns.\<close>

theorem mismatched_lengths_counterexample:
  "fst (transform (ArrayOf [Some 0, Some 1]) (ArrayOf [Some target_B]) (Some 1000) engine0) \<noteq>
     Throws MismatchedLength"
  by (simp add: transform_mismatch)

text \<open>
  C5, as the code behaves: for every \<open>count < 0\<close>, \<open>generateLayoutTargets\<close> returns
  normally, and each of the five layouts is empty.
\<close>

theorem negative_count_returns_empty:
  assumes "count < 0"
  shows "generateLayoutTargets lookAt count =
           Returns \<lparr>table = [], sphere = [], helix = [], grid = [], tetra = []\<rparr>"
  using assms by (rule layouts_of_negative_count)

theorem negative_count_returns_empty_witness:
  "generateLayoutTargets no_turn (- 3) =
     Returns \<lparr>table = [], sphere = [], helix = [], grid = [], tetra = []\<rparr>"
  using negative_count_returns_empty [of "- 3" no_turn] by simp

text \<open>For \<open>count = -1\<close> no error of kind InvalidArgument is raised.\<close>

theorem negative_count_counterexample:
  "generateLayoutTargets no_turn (- 1) \<noteq> Throws InvalidArgument"
  using layouts_of_negative_count [of "- 1" no_turn] by simp

text \<open>
  C6: for \<open>count = 0\<close> the sphere, helix and tetra generators return the empty sequence
  and \<open>generateLayoutTargets\<close> returns normally. The loop over the items does not run its
  body (its result is the same whatever the body), so the division by \<open>count\<close> in the
  sphere formula is not evaluated; every tetra face has no item, so the face loop skips
  it before the Hammersley division by the number of items.
\<close>

theorem zero_count_no_items:
  "generateSphereLayout lookAt 0 = [] \<and> generateHelixLayout lookAt 0 = [] \<and>
   generateTetraLayout lookAt 0 = [] \<and>
   generateLayoutTargets lookAt 0 =
     Returns \<lparr>table = [], sphere = [], helix = [], grid = [], tetra = []\<rparr> \<and>
   push_loop body 0 0 targets = targets \<and>
   map (itemsOnFace_of (floor_div 0 (int (length faces))) (js_rem 0 (int (length faces))))
     [0, 1, 2, 3] = [0, 0, 0, 0]"
proof -
  have "length (generateTetraLayout lookAt 0) = 0"
    by (simp add: length_generateTetraLayout)
  then show ?thesis
    by (simp add: generateLayoutTargets_def generateTableLayout_def generateGridLayout_def
        generateSphereLayout_def generateHelixLayout_def Let_def push_loop_none
        itemsOnFace_of_def floor_div_eq js_rem_def)
qed

text \<open>
  C7: for every \<open>count \<ge> 0\<close> and \<open>i < count\<close>, the table layout places item \<open>i\<close> at column
  \<open>i mod 20\<close> and row \<open>i div 20\<close>, at \<open>x = (col - 20/2 + 0.5) * X_SPACING\<close>,
  \<open>y = (10/2 - row - 0.5) * Y_SPACING\<close>, \<open>z = 0\<close>, with the identity rotation.
\<close>

theorem table_positions:
  assumes "0 \<le> count" and "i < nat count"
  shows "generateTableLayout count ! i =
           \<lparr>position = Vector3 ((real (i mod 20) - 20 / 2 + 0.5) * TABLE_X_SPACING)
                         ((10 / 2 - real (i div 20) - 0.5) * TABLE_Y_SPACING) 0,
            rotation = Vector3 0 0 0\<rparr>"
proof -
  have "generateTableLayout count ! i = table_target (int i)"
    using assms by (simp add: generateTableLayout_def nth_push_loop)
  moreover have "js_rem (int i) 20 = int (i mod 20)"
    by (simp add: js_rem_nonneg zmod_int)
  moreover have "floor_div (int i) 20 = int (i div 20)"
    by (simp add: floor_div_eq zdiv_int)
  ultimately show ?thesis
    by (simp add: table_target_def Let_def TABLE_COLS_def TABLE_ROWS_def)
qed

text \<open>For \<open>count = 7\<close>, item 0 is at \<open>x = (0 - 10 + 0.5) * X_SPACING\<close>, \<open>y = (5 - 0 - 0.5) * Y_SPACING\<close>.\<close>

theorem table_positions_witness:
  "generateTableLayout 7 ! 0 =
     \<lparr>position = Vector3 ((0 - 10 + 0.5) * TABLE_X_SPACING) ((5 - 0 - 0.5) * TABLE_Y_SPACING) 0,
      rotation = Vector3 0 0 0\<rparr>"
  using table_positions [of 7 0] by simp

text \<open>
  C8: for every \<open>count \<ge> 0\<close> and \<open>i < count\<close>, the helix layout places item \<open>i\<close> on strand
  \<open>i mod 2\<close> at step \<open>k = i div 2\<close>, at the angle \<open>k * TURN_ANGLE\<close>, plus \<open>pi\<close> on the odd
  strand, at the radius \<open>RADIUS + 20\<close> on the even and \<open>RADIUS - 20\<close> on the odd strand, with
  \<open>x = radius * cos angle\<close>, \<open>z = radius * sin angle\<close> and \<open>y = k * VERTICAL_STEP - centerOffset\<close>,
  where \<open>centerOffset = (ceil (count / 2) - 1) * VERTICAL_STEP / 2\<close>; it looks at the axis at
  its own height.
\<close>

theorem helix_positions:
  assumes "0 \<le> count" and "i < nat count"
  shows "generateHelixLayout lookAt count ! i =
           (let strand = i mod 2;
                k = i div 2;
                angle = real k * HELIX_TURN_ANGLE + (if strand = 0 then 0 else pi);
                radius = HELIX_RADIUS + (if strand = 0 then 20 else - 20);
                centerOffset = (real_of_int (\<lceil>real_of_int count / 2\<rceil> - 1) * HELIX_VERTICAL_STEP) / 2;
                x = radius * cos angle;
                z = radius * sin angle;
                y = real k * HELIX_VERTICAL_STEP - centerOffset
            in \<lparr>position = Vector3 x y z,
                rotation = lookAt (Vector3 x y z) (Vector3 0 y 0)\<rparr>)"
proof -
  have "generateHelixLayout lookAt count ! i =
      helix_target lookAt ((real_of_int (ceil_div count 2 - 1) * HELIX_VERTICAL_STEP) / 2) (int i)"
    using assms by (simp add: generateHelixLayout_def Let_def nth_push_loop)
  moreover have "js_rem (int i) 2 = int (i mod 2)"
    by (simp add: js_rem_nonneg zmod_int)
  moreover have "floor_div (int i) 2 = int (i div 2)"
    by (simp add: floor_div_eq zdiv_int)
  ultimately show ?thesis
    by (simp add: helix_target_def Let_def ceil_div_def)
qed

theorem helix_positions_witness:
  "position (generateHelixLayout no_turn 3 ! 1) =
     Vector3 ((HELIX_RADIUS - 20) * cos pi) (0 * HELIX_VERTICAL_STEP - HELIX_VERTICAL_STEP / 2)
       ((HELIX_RADIUS - 20) * sin pi)"
  using helix_positions [of 3 1 no_turn] by (simp add: Let_def)

text \<open>
  C9: for every \<open>count \<ge> 0\<close> the tetra layout is the items of face 0, then those of face
  1, face 2 and face 3, and each face has \<open>count div 4\<close> items, plus one if its index is
  below \<open>count mod 4\<close>.
\<close>

theorem tetra_face_assignment:
  assumes "0 \<le> count"
  shows "generateTetraLayout lookAt count =
           concat (map (tetra_face_items lookAt count) [0, 1, 2, 3]) \<and>
         map (\<lambda>f. int (length (tetra_face_items lookAt count f))) [0, 1, 2, 3] =
           map (\<lambda>f. count div 4 + (if f < count mod 4 then 1 else 0)) [0, 1, 2, 3]"
  using assms by (simp add: generateTetraLayout_blocks length_tetra_face_items)

text \<open>For \<open>count = 4\<close> each face has exactly one item.\<close>

theorem tetra_face_assignment_witness:
  "generateTetraLayout no_turn 4 = concat (map (tetra_face_items no_turn 4) [0, 1, 2, 3]) \<and>
   map (\<lambda>f. length (tetra_face_items no_turn 4 f)) [0, 1, 2, 3] = [1, 1, 1, 1]"
  using tetra_face_assignment [of 4 no_turn] by simp

text \<open>
  C10: a call of \<open>transform\<close> with non-empty arrays of equal length returns normally.
  After it \<open>activeTweens\<close> holds exactly the tweens the call created, a position tween and
  a rotation tween per item in the order of the items, and of the tweens started before,
  every one that was in \<open>activeTweens\<close> has been stopped, whatever object it animates.
\<close>

theorem transform_replaces_active_set:
  assumes "items \<noteq> []" and "length items = length tgts"
  shows "let new = created_tweens s (chosen_duration duration) (nextId s) items tgts;
             r = transform (ArrayOf (map Some items)) (ArrayOf (map Some tgts)) duration s
         in fst r = Returns () \<and>
            activeTweens (snd r) = map tw_id new \<and>
            playing (snd r) =
              filter (\<lambda>tw. tw_id tw \<notin> set (activeTweens s)) (playing s) @ new \<and>
            length new = 2 * length items \<and>
            (\<forall>i<length items.
               tw_object (new ! (2 * i)) = PositionOf (items ! i) \<and>
               tw_valuesEnd (new ! (2 * i)) = position (tgts ! i) \<and>
               tw_object (new ! (2 * i + 1)) = RotationOf (items ! i) \<and>
               tw_valuesEnd (new ! (2 * i + 1)) = rotation (tgts ! i))"
proof -
  let ?new = "created_tweens s (chosen_duration duration) (nextId s) items tgts"
  have "tw_object (?new ! (2 * i)) = PositionOf (items ! i) \<and>
      tw_valuesEnd (?new ! (2 * i)) = position (tgts ! i) \<and>
      tw_object (?new ! (2 * i + 1)) = RotationOf (items ! i) \<and>
      tw_valuesEnd (?new ! (2 * i + 1)) = rotation (tgts ! i)" if "i < length items" for i
    using created_tweens_nth [OF assms(2) that, of s "chosen_duration duration" "nextId s"]
    by (simp del: One_nat_def add_Suc_right)
  then have each: "\<forall>i<length items.
      tw_object (?new ! (2 * i)) = PositionOf (items ! i) \<and>
      tw_valuesEnd (?new ! (2 * i)) = position (tgts ! i) \<and>
      tw_object (?new ! (2 * i + 1)) = RotationOf (items ! i) \<and>
      tw_valuesEnd (?new ! (2 * i + 1)) = rotation (tgts ! i)"
    by blast
  let ?r = "transform (ArrayOf (map Some items)) (ArrayOf (map Some tgts)) duration s"
  have "fst ?r = Returns ()" and "activeTweens (snd ?r) = map tw_id ?new"
    and "playing (snd ?r) = filter (\<lambda>tw. tw_id tw \<notin> set (activeTweens s)) (playing s) @ ?new"
    by (simp_all add: transform_eq_opt [OF assms])
  moreover have "length ?new = 2 * length items"
    using assms(2) by (rule length_created_tweens)
  ultimately show ?thesis
    unfolding Let_def using each by blast
qed

theorem transform_replaces_active_set_witness:
  "activeTweens (snd (transform (ArrayOf [Some 0]) (ArrayOf [Some target_C]) (Some 500)
     (snd (transform (ArrayOf [Some 5]) (ArrayOf [Some target_B]) None engine0)))) = [2, 3] \<and>
   map tw_object (playing (snd (transform (ArrayOf [Some 0]) (ArrayOf [Some target_C]) (Some 500)
     (snd (transform (ArrayOf [Some 5]) (ArrayOf [Some target_B]) None engine0))))) =
     [PositionOf 0, RotationOf 0]"
proof -
  define busy where
    "busy = snd (transform (ArrayOf [Some 5]) (ArrayOf [Some target_B]) None engine0)"
  have a: "[5::nat] \<noteq> []" and b: "length [5::nat] = length [target_B]"
    by simp_all
  have busy: "busy = engine0\<lparr>activeTweens := [0, 1],
      playing := created_tweens engine0 2000 0 [5] [target_B], nextId := 2\<rparr>"
    using transform_eq_opt [OF a b, of None engine0]
    by (simp add: busy_def chosen_duration_def DEFAULT_DURATION_def engine0_def)
  show ?thesis
    unfolding busy_def [symmetric]
    using transform_replaces_active_set [of "[0]" "[target_C]" busy "Some 500"]
    by (simp add: Let_def busy engine0_def)
qed

end
